theory Spec2Isabelle
  imports Main
begin

section \<open>The predict command of allennlp: errors, effects and lazy sequences\<close>

text \<open>
  The development embeds \<^verbatim>\<open>allennlp/commands/predict.py\<close>: the class
  \<^verbatim>\<open>_PredictManager\<close> and the functions \<^verbatim>\<open>_get_predictor\<close> and \<^verbatim>\<open>_predict\<close>.
  Every \<^verbatim>\<open>raise\<close>, the \<^verbatim>\<open>assert\<close> and \<^verbatim>\<open>sys.exit\<close> of the source are values of
  the type \<open>error\<close>; a function that can fail returns \<open>error + 'a\<close>.
\<close>

datatype error =
    ConfigurationError string
  | OSError
  | AssertionError
  | SystemExit int
  | OtherError string

text \<open>
  What the code does to the outside is recorded as a list of events, in the order in which
  it happens: opening, writing and closing the output file, taking a line from standard
  input or from the input file, calling the dataset reader, calling one of the four
  prediction operations of the predictor, and printing. \<open>PrintInput i s\<close> is
  \<^verbatim>\<open>print(f"input {i}: ", s)\<close>, \<open>PrintPrediction s\<close> is \<^verbatim>\<open>print("prediction: ", s)\<close> and
  \<open>PrintMessage s\<close> is \<^verbatim>\<open>print(s)\<close>.
\<close>

datatype ('j, 'i) event =
    SetFileFriendlyLogging bool
  | OpenOutput string
  | WriteOutput string string
  | CloseOutput string
  | StdinLine string
  | OpenInput string "string option"
  | FileLine string
  | ReaderRead string "string option"
  | PredictJson 'j
  | PredictBatchJson "'j list"
  | PredictInstance 'i
  | PredictBatchInstance "'i list"
  | PrintInput nat string
  | PrintPrediction string
  | PrintMessage string

text \<open>
  A Python generator is a finite lazy sequence: it ends (\<open>Done\<close>), raises (\<open>Raise\<close>),
  performs an effect and goes on (\<open>Emit\<close>), or yields a value and goes on when it is asked
  for the next one (\<open>Yield\<close>). What stands behind a \<open>Yield\<close> happens only after the
  consumer has dealt with the value.
\<close>

datatype ('e, 'a) gen =
    Done
  | Raise error
  | Emit 'e "('e, 'a) gen"
  | Yield 'a "('e, 'a) gen"

fun yield_from :: "'a list \<Rightarrow> ('e, 'a) gen" where
  "yield_from [] = Done"
| "yield_from (x # xs) = Yield x (yield_from xs)"

subsection \<open>Python strings\<close>

text \<open>
  \<^verbatim>\<open>str.isspace\<close> holds of a string that is not empty and whose characters are all
  whitespace; for the code points below 256 these are 9 to 13, 28 to 32, 133 and 160.
  \<^verbatim>\<open>str.strip\<close> removes the same characters at both ends.
\<close>

definition is_whitespace :: "char \<Rightarrow> bool" where
  "is_whitespace c =
     (let n = (of_char c :: nat)
      in (9 \<le> n \<and> n \<le> 13) \<or> (28 \<le> n \<and> n \<le> 32) \<or> n = 133 \<or> n = 160)"

definition isspace :: "string \<Rightarrow> bool" where
  "isspace s = (s \<noteq> [] \<and> list_all is_whitespace s)"

definition strip :: "string \<Rightarrow> string" where
  "strip s = rev (dropWhile is_whitespace (rev (dropWhile is_whitespace s)))"

definition truthy :: "string option \<Rightarrow> bool" where
  "truthy s = (case s of None \<Rightarrow> False | Some t \<Rightarrow> t \<noteq> [])"

subsection \<open>The collaborators: dataset reader, predictor, the outside world\<close>

text \<open>
  A dataset reader reads a path into instances; a \<^verbatim>\<open>MultiTaskDatasetReader\<close> takes the
  task to force as well. \<open>is_multitask\<close> is
  \<^verbatim>\<open>isinstance(self._dataset_reader, MultiTaskDatasetReader)\<close>, which is false of \<^verbatim>\<open>None\<close>.
\<close>

datatype 'i dataset_reader =
    DatasetReader "string \<Rightarrow> 'i list"
  | MultiTaskDatasetReader "string \<Rightarrow> string \<Rightarrow> 'i list"

fun is_multitask :: "'i dataset_reader option \<Rightarrow> bool" where
  "is_multitask (Some (MultiTaskDatasetReader rd)) = True"
| "is_multitask _ = False"

record ('j, 'i, 'r) predictor =
  predict_json :: "'j \<Rightarrow> 'r"
  predict_batch_json :: "'j list \<Rightarrow> 'r list"
  predict_instance :: "'i \<Rightarrow> 'r"
  predict_batch_instance :: "'i list \<Rightarrow> 'r list"
  dump_line :: "'r \<Rightarrow> string"
  load_line :: "string \<Rightarrow> 'j"
  predictor_dataset_reader :: "'i dataset_reader option"

text \<open>
  The world holds what the code reads from outside: the lines of standard input, whether
  \<^verbatim>\<open>open(path, "w")\<close> succeeds, \<^verbatim>\<open>cached_path\<close>, and \<^verbatim>\<open>open_compressed\<close>, which gives the
  lines that iterating over the file delivers and whether an \<^verbatim>\<open>OSError\<close> is raised after
  them (an open that fails at once delivers no line). \<^verbatim>\<open>json.dumps\<close> and \<^verbatim>\<open>str\<close> render a
  record for the console.
\<close>

record ('j, 'i) world =
  stdin :: "string list"
  open_output :: "string \<Rightarrow> bool"
  cached_path :: "string \<Rightarrow> string"
  open_compressed :: "string \<Rightarrow> string option \<Rightarrow> string list \<times> bool"
  json_dumps :: "'j \<Rightarrow> string"
  str_instance :: "'i \<Rightarrow> string"

text \<open>
  What \<^verbatim>\<open>_get_predictor\<close> calls is not part of this file of the repository and is taken as
  a parameter: the device check, the loading of the archive, \<^verbatim>\<open>json.loads\<close> with the empty
  dictionary, and \<^verbatim>\<open>Predictor.from_archive\<close>. Each of them can raise.
\<close>

record ('j, 'i, 'r, 'a, 'x) framework =
  check_for_gpu :: "int \<Rightarrow> error option"
  load_archive :: "string \<Rightarrow> string option \<Rightarrow> int \<Rightarrow> string \<Rightarrow> error + 'a"
  json_loads :: "string \<Rightarrow> error + 'x"
  empty_dict :: "'x"
  from_archive :: "'a \<Rightarrow> string option \<Rightarrow> string \<Rightarrow> 'x \<Rightarrow> error + ('j, 'i, 'r) predictor"

record args =
  archive_file :: string
  input_file :: string
  output_file :: "string option"
  weights_file :: "string option"
  batch_size :: int
  silent :: bool
  cuda_device :: int
  use_dataset_reader :: bool
  dataset_reader_choice :: string
  compression_type :: "string option"
  multitask_head :: "string option"
  overrides :: string
  predictor :: "string option"
  predictor_args :: string
  file_friendly_logging :: bool

subsection \<open>\<^verbatim>\<open>lazy_groups_of\<close>\<close>

text \<open>
  Modelled from the spec: \<^verbatim>\<open>lazy_groups_of\<close> of \<^verbatim>\<open>allennlp.common.util\<close> is not among the
  sources. The spec has the records consumed lazily "in fixed-size, order-preserving
  batches", a batch being "an ordered, fixed-maximum-size group of Input Records, last
  batch of a stream may be smaller", and batching "must not reorder or drop records".
  \<open>groups_from n acc g\<close> collects records of \<open>g\<close> behind \<open>acc\<close> until there are \<open>n\<close> of them
  or \<open>g\<close> ends, and hands the group over; an exception of \<open>g\<close> goes through. The spec
  describes no group of a size below 1: the model takes nothing from the sequence then.
\<close>

fun groups_from :: "nat \<Rightarrow> 'a list \<Rightarrow> ('e, 'a) gen \<Rightarrow> ('e, 'a list) gen" where
  "groups_from n acc Done = (if acc = [] then Done else Yield acc Done)"
| "groups_from n acc (Raise e) = Raise e"
| "groups_from n acc (Emit e g) = Emit e (groups_from n acc g)"
| "groups_from n acc (Yield a g) =
     (if length acc + 1 < n then groups_from n (acc @ [a]) g
      else Yield (acc @ [a]) (groups_from n [] g))"

text \<open>
  Modelled from the spec: \<^verbatim>\<open>lazy_groups_of(iterable, group_size)\<close> itself, the groups of
  at most \<open>group_size\<close> records in the order of the sequence; the batch size of the
  command line is an integer, 1 when it is not given.
\<close>

definition lazy_groups_of :: "('e, 'a) gen \<Rightarrow> int \<Rightarrow> ('e, 'a list) gen" where
  "lazy_groups_of g group_size =
     (if group_size < 1 then Done else groups_from (nat group_size) [] g)"

subsection \<open>\<^verbatim>\<open>_PredictManager\<close>\<close>

record ('j, 'i, 'r) manager =
  m_predictor :: "('j, 'i, 'r) predictor"
  m_input_file :: string
  m_output_file :: "string option"
  m_batch_size :: int
  m_print_to_console :: bool
  m_dataset_reader :: "'i dataset_reader option"
  m_compression_type :: "string option"
  m_multitask_head :: "string option"

text \<open>
  \<^verbatim>\<open>__init__\<close>: the output file is opened first (a failure of \<^verbatim>\<open>open\<close> propagates), the
  fields are set, then the three checks of the multitask head follow in the order of the
  source.
\<close>

definition pm_init ::
  "('j, 'i) world \<Rightarrow> ('j, 'i, 'r) predictor \<Rightarrow> string \<Rightarrow> string option \<Rightarrow> int \<Rightarrow> bool \<Rightarrow> bool \<Rightarrow>
   string option \<Rightarrow> string option \<Rightarrow> ('j, 'i) event list \<times> (error + ('j, 'i, 'r) manager)" where
  "pm_init w p inp outp bs print_to_console has_dataset_reader ctype head =
     (if (case outp of None \<Rightarrow> False | Some f \<Rightarrow> \<not> open_output w f) then ([], Inl OSError)
      else
        let opened = (case outp of None \<Rightarrow> [] | Some f \<Rightarrow> [OpenOutput f]);
            m = \<lparr> m_predictor = p, m_input_file = inp, m_output_file = outp,
                  m_batch_size = bs, m_print_to_console = print_to_console,
                  m_dataset_reader =
                    (if \<not> has_dataset_reader then None else predictor_dataset_reader p),
                  m_compression_type = ctype, m_multitask_head = head \<rparr>
        in if m_multitask_head m \<noteq> None \<and> m_dataset_reader m = None then
             (opened, Inl (ConfigurationError
                ''You must use a dataset reader when using --multitask-head.''))
           else if m_multitask_head m \<noteq> None \<and> \<not> is_multitask (m_dataset_reader m) then
             (opened, Inl (ConfigurationError
                ''--multitask-head only works with a multitask dataset reader.''))
           else if is_multitask (m_dataset_reader m) \<and> m_multitask_head m = None then
             (opened, Inl (ConfigurationError
                ''You must specify --multitask-head when using a multitask dataset reader.''))
           else (opened, Inr m))"

text \<open>
  \<^verbatim>\<open>_predict_json\<close> and \<^verbatim>\<open>_predict_instances\<close>: the call made to the predictor and the
  lines the generator yields, \<^verbatim>\<open>dump_line\<close> of each result.
\<close>

definition pm_predict_json ::
  "('j, 'i, 'r) manager \<Rightarrow> 'j list \<Rightarrow> ('j, 'i) event list \<times> string list" where
  "pm_predict_json m batch_data =
     (if length batch_data = 1 then
        ([PredictJson (batch_data ! 0)],
         map (dump_line (m_predictor m)) [predict_json (m_predictor m) (batch_data ! 0)])
      else
        ([PredictBatchJson batch_data],
         map (dump_line (m_predictor m)) (predict_batch_json (m_predictor m) batch_data)))"

definition pm_predict_instances ::
  "('j, 'i, 'r) manager \<Rightarrow> 'i list \<Rightarrow> ('j, 'i) event list \<times> string list" where
  "pm_predict_instances m batch_data =
     (if length batch_data = 1 then
        ([PredictInstance (batch_data ! 0)],
         map (dump_line (m_predictor m)) [predict_instance (m_predictor m) (batch_data ! 0)])
      else
        ([PredictBatchInstance batch_data],
         map (dump_line (m_predictor m)) (predict_batch_instance (m_predictor m) batch_data)))"

definition pm_maybe_print_to_console_and_file ::
  "('j, 'i, 'r) manager \<Rightarrow> nat \<Rightarrow> string \<Rightarrow> string option \<Rightarrow> ('j, 'i) event list" where
  "pm_maybe_print_to_console_and_file m index prediction model_input =
     (if m_print_to_console m then
        (case model_input of None \<Rightarrow> [] | Some s \<Rightarrow> [PrintInput index s])
        @ [PrintPrediction prediction]
      else [])
     @ (case m_output_file m of None \<Rightarrow> [] | Some f \<Rightarrow> [WriteOutput f prediction])"

text \<open>
  \<^verbatim>\<open>_get_json_data\<close>. \<open>read_lines\<close> is the loop over the lines, the same in the three
  branches: a line that \<^verbatim>\<open>isspace\<close> holds of is passed over, any other is yielded through
  \<^verbatim>\<open>load_line\<close>; \<open>after\<close> is what follows the loop. The two branches that open a file catch
  an \<^verbatim>\<open>OSError\<close>, print their message and end.
\<close>

fun read_lines ::
  "('j, 'i, 'r) predictor \<Rightarrow> (string \<Rightarrow> ('j, 'i) event) \<Rightarrow> string list \<Rightarrow>
   (('j, 'i) event, 'j) gen \<Rightarrow> (('j, 'i) event, 'j) gen" where
  "read_lines p ev [] after = after"
| "read_lines p ev (line # rest) after =
     Emit (ev line)
       (if \<not> isspace line then Yield (load_line p line) (read_lines p ev rest after)
        else read_lines p ev rest after)"

definition pm_get_json_data ::
  "('j, 'i) world \<Rightarrow> ('j, 'i, 'r) manager \<Rightarrow> (('j, 'i) event, 'j) gen" where
  "pm_get_json_data w m =
     (if m_input_file m = ''-'' then read_lines (m_predictor m) StdinLine (stdin w) Done
      else
        let input_file = cached_path w (m_input_file m)
        in if m_compression_type m = None then
             (case open_compressed w input_file None of (lines, os_error) \<Rightarrow>
                Emit (OpenInput input_file None)
                  (read_lines (m_predictor m) FileLine lines
                     (if os_error then
                        Emit (PrintMessage
                          ''Automatic detection failed, please specify the compression type argument.'')
                          Done
                      else Done)))
           else
             (case open_compressed w input_file (m_compression_type m) of (lines, os_error) \<Rightarrow>
                Emit (OpenInput input_file (m_compression_type m))
                  (read_lines (m_predictor m) FileLine lines
                     (if os_error then
                        Emit (PrintMessage
                          ''please specify the correct compression type argument.'')
                          Done
                      else Done))))"

definition pm_get_instance_data ::
  "('j, 'i, 'r) manager \<Rightarrow> (('j, 'i) event, 'i) gen" where
  "pm_get_instance_data m =
     (if m_input_file m = ''-'' then
        Raise (ConfigurationError ''stdin is not an option when using a DatasetReader.'')
      else case m_dataset_reader m of
        None \<Rightarrow>
          Raise (ConfigurationError ''To generate instances directly, pass a DatasetReader.'')
      | Some (MultiTaskDatasetReader rd) \<Rightarrow>
          (case m_multitask_head m of
             None \<Rightarrow> Raise AssertionError
           | Some h \<Rightarrow>
               Emit (ReaderRead (m_input_file m) (Some h)) (yield_from (rd (m_input_file m) h)))
      | Some (DatasetReader rd) \<Rightarrow>
          Emit (ReaderRead (m_input_file m) None) (yield_from (rd (m_input_file m))))"

text \<open>
  \<^verbatim>\<open>run\<close>. \<open>emit_pairs\<close> is the inner loop over \<^verbatim>\<open>zip(batch, results)\<close>, which stops at the
  shorter of the two; \<open>show_input\<close> is \<^verbatim>\<open>json.dumps\<close> or \<^verbatim>\<open>str\<close>. \<open>zip\<close> asks the batch
  first, so the prediction generator is not started for an empty batch. \<open>for_batches\<close> is
  the outer loop over the groups, carrying \<^verbatim>\<open>index\<close>.
\<close>

fun emit_pairs ::
  "('j, 'i, 'r) manager \<Rightarrow> ('a \<Rightarrow> string) \<Rightarrow> nat \<Rightarrow> ('a \<times> string) list \<Rightarrow>
   ('j, 'i) event list \<times> nat" where
  "emit_pairs m show_input index [] = ([], index)"
| "emit_pairs m show_input index ((model_input, result) # rest) =
     (let (es, index') = emit_pairs m show_input (index + 1) rest
      in (pm_maybe_print_to_console_and_file m index result (Some (show_input model_input)) @ es,
          index'))"

definition json_batch ::
  "('j, 'i) world \<Rightarrow> ('j, 'i, 'r) manager \<Rightarrow> nat \<Rightarrow> 'j list \<Rightarrow> ('j, 'i) event list \<times> nat" where
  "json_batch w m index batch_json =
     (if batch_json = [] then ([], index)
      else
        let (calls, results) = pm_predict_json m batch_json;
            (es, index') = emit_pairs m (json_dumps w) index (zip batch_json results)
        in (calls @ es, index'))"

definition instance_batch ::
  "('j, 'i) world \<Rightarrow> ('j, 'i, 'r) manager \<Rightarrow> nat \<Rightarrow> 'i list \<Rightarrow> ('j, 'i) event list \<times> nat" where
  "instance_batch w m index batch =
     (if batch = [] then ([], index)
      else
        let (calls, results) = pm_predict_instances m batch;
            (es, index') = emit_pairs m (str_instance w) index (zip batch results)
        in (calls @ es, index'))"

fun for_batches ::
  "(nat \<Rightarrow> 'a list \<Rightarrow> 'e list \<times> nat) \<Rightarrow> nat \<Rightarrow> ('e, 'a list) gen \<Rightarrow> 'e list \<times> (error + nat)" where
  "for_batches body index Done = ([], Inr index)"
| "for_batches body index (Raise e) = ([], Inl e)"
| "for_batches body index (Emit e g) =
     (let (es, r) = for_batches body index g in (e # es, r))"
| "for_batches body index (Yield batch g) =
     (let (es1, index') = body index batch;
          (es2, r) = for_batches body index' g
      in (es1 @ es2, r))"

definition pm_run ::
  "('j, 'i) world \<Rightarrow> ('j, 'i, 'r) manager \<Rightarrow> ('j, 'i) event list \<times> (error + unit)" where
  "pm_run w m =
     (let has_reader = (m_dataset_reader m \<noteq> None);
          (es, r) =
            (if has_reader then
               for_batches (instance_batch w m) 0
                 (lazy_groups_of (pm_get_instance_data m) (m_batch_size m))
             else
               for_batches (json_batch w m) 0
                 (lazy_groups_of (pm_get_json_data w m) (m_batch_size m)))
      in case r of
           Inl e \<Rightarrow> (es, Inl e)
         | Inr index \<Rightarrow>
             (case m_output_file m of
                None \<Rightarrow> (es, Inr ())
              | Some f \<Rightarrow> (es @ [CloseOutput f], Inr ())))"

subsection \<open>\<^verbatim>\<open>_get_predictor\<close> and \<^verbatim>\<open>_predict\<close>\<close>

definition get_predictor ::
  "('j, 'i, 'r, 'a, 'x) framework \<Rightarrow> args \<Rightarrow> error + ('j, 'i, 'r) predictor" where
  "get_predictor fw a =
     (case check_for_gpu fw (cuda_device a) of
        Some e \<Rightarrow> Inl e
      | None \<Rightarrow>
          (case load_archive fw (archive_file a) (weights_file a) (cuda_device a) (overrides a) of
             Inl e \<Rightarrow> Inl e
           | Inr archive \<Rightarrow>
               (let predictor_args = strip (predictor_args a)
                in (case (if length predictor_args \<le> 0 then Inr (empty_dict fw)
                          else json_loads fw predictor_args) of
                      Inl e \<Rightarrow> Inl e
                    | Inr extra \<Rightarrow>
                        from_archive fw archive (predictor a) (dataset_reader_choice a) extra))))"

text \<open>
  \<^verbatim>\<open>_predict\<close> passes seven positional arguments to the constructor: the seventh parameter
  of \<^verbatim>\<open>__init__\<close> is \<^verbatim>\<open>compression_type\<close>, so \<^verbatim>\<open>args.multitask_head\<close> arrives there and
  \<^verbatim>\<open>multitask_head\<close> keeps its default \<^verbatim>\<open>None\<close>.
\<close>

definition predict_cmd ::
  "('j, 'i, 'r, 'a, 'x) framework \<Rightarrow> ('j, 'i) world \<Rightarrow> args \<Rightarrow>
   ('j, 'i) event list \<times> (error + unit)" where
  "predict_cmd fw w a =
     (let logging = [SetFileFriendlyLogging (file_friendly_logging a)]
      in case get_predictor fw a of
           Inl e \<Rightarrow> (logging, Inl e)
         | Inr p \<Rightarrow>
             if silent a \<and> \<not> truthy (output_file a) then
               (logging @
                  [PrintMessage ''--silent specified without --output-file.'',
                   PrintMessage ''Exiting early because no output will be created.''],
                Inl (SystemExit 0))
             else
               (case pm_init w p (input_file a) (output_file a) (batch_size a) (\<not> silent a)
                       (use_dataset_reader a) (multitask_head a) None of
                  (es, Inl e) \<Rightarrow> (logging @ es, Inl e)
                | (es, Inr manager) \<Rightarrow>
                    (let (es', r) = pm_run w manager in (logging @ es @ es', r))))"

section \<open>Observing generators and runs\<close>

text \<open>
  The values a generator yields before it ends or raises, the exception it ends with, and
  the effects it performs on the way.
\<close>

fun yields :: "('e, 'a) gen \<Rightarrow> 'a list" where
  "yields Done = []"
| "yields (Raise e) = []"
| "yields (Emit e g) = yields g"
| "yields (Yield a g) = a # yields g"

fun raised :: "('e, 'a) gen \<Rightarrow> error option" where
  "raised Done = None"
| "raised (Raise e) = Some e"
| "raised (Emit e g) = raised g"
| "raised (Yield a g) = raised g"

fun effects :: "('e, 'a) gen \<Rightarrow> 'e list" where
  "effects Done = []"
| "effects (Raise e) = []"
| "effects (Emit e g) = e # effects g"
| "effects (Yield a g) = effects g"

text \<open>The grouping of \<open>groups_from\<close> on a plain list.\<close>

fun group_list :: "nat \<Rightarrow> 'a list \<Rightarrow> 'a list \<Rightarrow> 'a list list" where
  "group_list n acc [] = (if acc = [] then [] else [acc])"
| "group_list n acc (x # xs) =
     (if length acc + 1 < n then group_list n (acc @ [x]) xs
      else (acc @ [x]) # group_list n [] xs)"

text \<open>
  The bodies of the outer loop run one after the other on a list of batches, and the
  common shape of the two inner loops of \<^verbatim>\<open>run\<close>.
\<close>

fun bodies ::
  "(nat \<Rightarrow> 'a list \<Rightarrow> 'e list \<times> nat) \<Rightarrow> nat \<Rightarrow> 'a list list \<Rightarrow> 'e list \<times> nat" where
  "bodies body index [] = ([], index)"
| "bodies body index (b # bs) =
     (let (es1, index') = body index b;
          (es2, index'') = bodies body index' bs
      in (es1 @ es2, index''))"

definition zip_loop ::
  "('j, 'i, 'r) manager \<Rightarrow> ('a list \<Rightarrow> ('j, 'i) event list \<times> string list) \<Rightarrow> ('a \<Rightarrow> string) \<Rightarrow>
   nat \<Rightarrow> 'a list \<Rightarrow> ('j, 'i) event list \<times> nat" where
  "zip_loop m predict show_input index batch =
     (if batch = [] then ([], index)
      else (fst (predict batch) @ fst (emit_pairs m show_input index (zip batch (snd (predict batch)))),
            snd (emit_pairs m show_input index (zip batch (snd (predict batch))))))"

text \<open>The kinds of events.\<close>

fun is_output :: "('j, 'i) event \<Rightarrow> bool" where
  "is_output (PrintInput i s) = True"
| "is_output (PrintPrediction s) = True"
| "is_output (WriteOutput f s) = True"
| "is_output _ = False"

fun is_call :: "('j, 'i) event \<Rightarrow> bool" where
  "is_call (PredictJson x) = True"
| "is_call (PredictBatchJson xs) = True"
| "is_call (PredictInstance x) = True"
| "is_call (PredictBatchInstance xs) = True"
| "is_call _ = False"

fun is_read :: "('j, 'i) event \<Rightarrow> bool" where
  "is_read (StdinLine s) = True"
| "is_read (OpenInput f c) = True"
| "is_read (FileLine s) = True"
| "is_read (ReaderRead f h) = True"
| "is_read _ = False"

fun is_open_or_close :: "('j, 'i) event \<Rightarrow> bool" where
  "is_open_or_close (OpenOutput f) = True"
| "is_open_or_close (CloseOutput f) = True"
| "is_open_or_close _ = False"

fun json_records_of_call :: "('j, 'i) event \<Rightarrow> 'j list" where
  "json_records_of_call (PredictJson x) = [x]"
| "json_records_of_call (PredictBatchJson xs) = xs"
| "json_records_of_call _ = []"

text \<open>
  What a run reads and what it is expected to emit: the records of the source in the
  order in which the generator yields them, the batches the outer loop receives, the
  records as the console shows them, and the lines predicted for each batch.
\<close>

definition json_records :: "('j, 'i) world \<Rightarrow> ('j, 'i, 'r) manager \<Rightarrow> 'j list" where
  "json_records w m = yields (pm_get_json_data w m)"

definition instance_records :: "('j, 'i, 'r) manager \<Rightarrow> 'i list" where
  "instance_records m = yields (pm_get_instance_data m)"

definition json_batches :: "('j, 'i) world \<Rightarrow> ('j, 'i, 'r) manager \<Rightarrow> 'j list list" where
  "json_batches w m = yields (lazy_groups_of (pm_get_json_data w m) (m_batch_size m))"

definition instance_batches :: "('j, 'i, 'r) manager \<Rightarrow> 'i list list" where
  "instance_batches m = yields (lazy_groups_of (pm_get_instance_data m) (m_batch_size m))"

definition shown_records :: "('j, 'i) world \<Rightarrow> ('j, 'i, 'r) manager \<Rightarrow> string list" where
  "shown_records w m =
     (case m_dataset_reader m of
        None \<Rightarrow> map (json_dumps w) (json_records w m)
      | Some r \<Rightarrow> map (str_instance w) (instance_records m))"

definition batch_sizes :: "('j, 'i) world \<Rightarrow> ('j, 'i, 'r) manager \<Rightarrow> nat list" where
  "batch_sizes w m =
     (case m_dataset_reader m of
        None \<Rightarrow> map length (json_batches w m)
      | Some r \<Rightarrow> map length (instance_batches m))"

definition batch_predictions :: "('j, 'i) world \<Rightarrow> ('j, 'i, 'r) manager \<Rightarrow> string list list" where
  "batch_predictions w m =
     (case m_dataset_reader m of
        None \<Rightarrow> map (\<lambda>b. snd (pm_predict_json m b)) (json_batches w m)
      | Some r \<Rightarrow> map (\<lambda>b. snd (pm_predict_instances m b)) (instance_batches m))"

fun printed_inputs :: "('j, 'i) event list \<Rightarrow> (nat \<times> string) list" where
  "printed_inputs [] = []"
| "printed_inputs (PrintInput i s # es) = (i, s) # printed_inputs es"
| "printed_inputs (e # es) = printed_inputs es"

fun printed_predictions :: "('j, 'i) event list \<Rightarrow> string list" where
  "printed_predictions [] = []"
| "printed_predictions (PrintPrediction s # es) = s # printed_predictions es"
| "printed_predictions (e # es) = printed_predictions es"

fun written_predictions :: "('j, 'i) event list \<Rightarrow> string list" where
  "written_predictions [] = []"
| "written_predictions (WriteOutput f s # es) = s # written_predictions es"
| "written_predictions (e # es) = written_predictions es"

text \<open>
  The predictor operation the spec names for a batch: the single-record operation for a
  batch of exactly one record, the batch operation for a batch of more than one.
\<close>

definition spec_json_call :: "'j list \<Rightarrow> ('j, 'i) event" where
  "spec_json_call batch = (case batch of [x] \<Rightarrow> PredictJson x | _ \<Rightarrow> PredictBatchJson batch)"

definition spec_instance_call :: "'i list \<Rightarrow> ('j, 'i) event" where
  "spec_instance_call batch =
     (case batch of [x] \<Rightarrow> PredictInstance x | _ \<Rightarrow> PredictBatchInstance batch)"

text \<open>
  The lines of the raw-JSON input: standard input for \<^verbatim>\<open>-\<close>, otherwise what the opened
  file delivers, with or without a compression type.
\<close>

definition input_lines :: "('j, 'i) world \<Rightarrow> ('j, 'i, 'r) manager \<Rightarrow> string list" where
  "input_lines w m =
     (if m_input_file m = ''-'' then stdin w
      else fst (open_compressed w (cached_path w (m_input_file m)) (m_compression_type m)))"

text \<open>
  The dataset reader the constructor keeps:
  \<^verbatim>\<open>None if not has_dataset_reader else predictor._dataset_reader\<close>.
\<close>

definition kept_reader :: "('j, 'i, 'r) predictor \<Rightarrow> bool \<Rightarrow> 'i dataset_reader option" where
  "kept_reader p has_dataset_reader =
     (if \<not> has_dataset_reader then None else predictor_dataset_reader p)"

text \<open>
  The lines the single-record operation gives for the records of the source, one by one.
\<close>

definition single_predictions :: "('j, 'i) world \<Rightarrow> ('j, 'i, 'r) manager \<Rightarrow> string list" where
  "single_predictions w m =
     (case m_dataset_reader m of
        None \<Rightarrow>
          map (\<lambda>x. dump_line (m_predictor m) (predict_json (m_predictor m) x)) (json_records w m)
      | Some r \<Rightarrow>
          map (\<lambda>x. dump_line (m_predictor m) (predict_instance (m_predictor m) x))
            (instance_records m))"

text \<open>
  The lines the spec's operation gives for a batch: the dumped result of the single-record
  operation for a batch of exactly one record, the dumped results of the batch operation
  for a larger one, as far as \<^verbatim>\<open>zip\<close> pairs them with the records of the batch; and the
  lines of all the batches of a run.
\<close>

definition spec_json_lines :: "('j, 'i, 'r) predictor \<Rightarrow> 'j list \<Rightarrow> string list" where
  "spec_json_lines p batch =
     (case batch of
        [x] \<Rightarrow> [dump_line p (predict_json p x)]
      | _ \<Rightarrow> take (length batch) (map (dump_line p) (predict_batch_json p batch)))"

definition spec_instance_lines :: "('j, 'i, 'r) predictor \<Rightarrow> 'i list \<Rightarrow> string list" where
  "spec_instance_lines p batch =
     (case batch of
        [x] \<Rightarrow> [dump_line p (predict_instance p x)]
      | _ \<Rightarrow> take (length batch) (map (dump_line p) (predict_batch_instance p batch)))"

definition spec_lines :: "('j, 'i) world \<Rightarrow> ('j, 'i, 'r) manager \<Rightarrow> string list" where
  "spec_lines w m =
     (case m_dataset_reader m of
        None \<Rightarrow> concat (map (spec_json_lines (m_predictor m)) (json_batches w m))
      | Some r \<Rightarrow> concat (map (spec_instance_lines (m_predictor m)) (instance_batches m)))"

subsection \<open>A concrete predictor, world and command line\<close>

text \<open>
  Records are strings here. The predictor appends a mark to a record and a full stop when
  it dumps a line; its dataset reader delivers three instances. Standard input has four
  lines, the second of them blank; only \<^verbatim>\<open>out.txt\<close> can be opened for writing; only
  \<^verbatim>\<open>in.jsonl\<close> can be opened for reading; only \<^verbatim>\<open>model.tar.gz\<close> is an archive and only
  \<^verbatim>\<open>{}\<close> parses as JSON.
\<close>

definition demo_predictor :: "(string, string, string) predictor" where
  "demo_predictor =
     \<lparr> predict_json = (\<lambda>x. x @ ''!''), predict_batch_json = map (\<lambda>x. x @ ''!''),
       predict_instance = (\<lambda>x. x @ ''?''), predict_batch_instance = map (\<lambda>x. x @ ''?''),
       dump_line = (\<lambda>r. r @ ''.''), load_line = (\<lambda>l. l),
       predictor_dataset_reader = Some (DatasetReader (\<lambda>f. [''x'', ''y'', ''z''])) \<rparr>"

definition demo_world :: "(string, string) world" where
  "demo_world =
     \<lparr> stdin = [''a'', '' '', ''b'', ''c''],
       open_output = (\<lambda>f. f = ''out.txt''),
       cached_path = (\<lambda>f. f),
       open_compressed =
         (\<lambda>f c. if f = ''in.jsonl'' then ([''u'', [CHR 0x0A], ''v''], False) else ([], True)),
       json_dumps = (\<lambda>x. x), str_instance = (\<lambda>x. x) \<rparr>"

definition demo_framework :: "(string, string, string, unit, unit) framework" where
  "demo_framework =
     \<lparr> check_for_gpu = (\<lambda>d. if d < 1 then None else Some (ConfigurationError ''no such device'')),
       load_archive = (\<lambda>f wf d ov. if f = ''model.tar.gz'' then Inr () else Inl OSError),
       json_loads = (\<lambda>s. if s = ''{}'' then Inr () else Inl (OtherError ''JSONDecodeError'')),
       empty_dict = (),
       from_archive = (\<lambda>a p c x. Inr demo_predictor) \<rparr>"

definition demo_args :: args where
  "demo_args =
     \<lparr> archive_file = ''model.tar.gz'', input_file = ''-'', output_file = None,
       weights_file = None, batch_size = 2, silent = False, cuda_device = - 1,
       use_dataset_reader = False, dataset_reader_choice = ''validation'',
       compression_type = None, multitask_head = None, overrides = [], predictor = None,
       predictor_args = [], file_friendly_logging = False \<rparr>"

definition demo_manager :: "(string, string, string) manager" where
  "demo_manager =
     \<lparr> m_predictor = demo_predictor, m_input_file = ''-'', m_output_file = Some ''out.txt'',
       m_batch_size = 2, m_print_to_console = True, m_dataset_reader = None,
       m_compression_type = None, m_multitask_head = None \<rparr>"

text \<open>
  A predictor whose single-record operation marks a result with \<^verbatim>\<open>1\<close> and whose batch
  operation marks it with \<^verbatim>\<open>N\<close>, so that a line tells which operation made it.
\<close>

definition marked_predictor :: "(string, string, string) predictor" where
  "marked_predictor =
     \<lparr> predict_json = (\<lambda>x. x @ ''1''), predict_batch_json = map (\<lambda>x. x @ ''N''),
       predict_instance = (\<lambda>x. x @ ''1''), predict_batch_instance = map (\<lambda>x. x @ ''N''),
       dump_line = (\<lambda>r. r @ ''.''), load_line = (\<lambda>l. l),
       predictor_dataset_reader = Some (DatasetReader (\<lambda>f. [''x'', ''y'', ''z''])) \<rparr>"

section \<open>Generators, grouping and the loops\<close>

lemma yields_groups_from:
  "raised g = None \<Longrightarrow> yields (groups_from n acc g) = group_list n acc (yields g)"
  by (induction g arbitrary: acc) auto

lemma raised_groups_from: "raised (groups_from n acc g) = raised g"
  by (induction g arbitrary: acc) auto

lemma effects_groups_from: "effects (groups_from n acc g) = effects g"
  by (induction g arbitrary: acc) auto

lemma concat_group_list: "concat (group_list n acc xs) = acc @ xs"
  by (induction xs arbitrary: acc) auto

lemma group_list_nonempty: "[] \<notin> set (group_list n acc xs)"
  by (induction xs arbitrary: acc) auto

lemma group_list_length:
  "length acc < n \<Longrightarrow> b \<in> set (group_list n acc xs) \<Longrightarrow> length b \<le> n"
proof (induction xs arbitrary: acc)
  case Nil
  then show ?case by (auto split: if_splits)
next
  case (Cons a xs)
  show ?case
  proof (cases "length acc + 1 < n")
    case True
    with Cons.prems have "b \<in> set (group_list n (acc @ [a]) xs)" by simp
    moreover from True have "length (acc @ [a]) < n" by simp
    ultimately show ?thesis by (rule Cons.IH[rotated])
  next
    case False
    with Cons.prems have "b = acc @ [a] \<or> b \<in> set (group_list n [] xs)" by simp
    moreover from Cons.prems have "0 < n" by simp
    ultimately show ?thesis using Cons.IH[of "[]"] Cons.prems(1) by auto
  qed
qed

lemma raised_yield_from: "raised (yield_from xs) = None"
  by (induction xs) auto

lemma yields_yield_from: "yields (yield_from xs) = xs"
  by (induction xs) auto

lemma effects_yield_from: "effects (yield_from xs) = []"
  by (induction xs) auto

lemma raised_read_lines: "raised (read_lines p ev ls after) = raised after"
  by (induction ls) auto

lemma yields_read_lines:
  "yields (read_lines p ev ls after) =
     map (load_line p) (filter (\<lambda>l. \<not> isspace l) ls) @ yields after"
  by (induction ls) auto

lemma effects_read_lines:
  "effects (read_lines p ev ls after) = map ev ls @ effects after"
  by (induction ls) auto

lemma raised_json_data: "raised (pm_get_json_data w m) = None"
  by (auto simp: pm_get_json_data_def Let_def raised_read_lines split: prod.splits)

lemma json_batch_zip_loop: "json_batch w m = zip_loop m (pm_predict_json m) (json_dumps w)"
  by (auto simp: json_batch_def zip_loop_def fun_eq_iff case_prod_beta Let_def)

lemma instance_batch_zip_loop:
  "instance_batch w m = zip_loop m (pm_predict_instances m) (str_instance w)"
  by (auto simp: instance_batch_def zip_loop_def fun_eq_iff case_prod_beta Let_def)

lemma for_batches_outcome:
  "snd (for_batches body i G) =
     (case raised G of Some e \<Rightarrow> Inl e | None \<Rightarrow> Inr (snd (bodies body i (yields G))))"
  by (induction G arbitrary: i) (auto simp: case_prod_beta Let_def split: option.splits)

lemma for_batches_filter:
  "\<forall>e \<in> set (effects G). \<not> P e \<Longrightarrow>
   filter P (fst (for_batches body i G)) = filter P (fst (bodies body i (yields G)))"
  by (induction G arbitrary: i) (auto simp: case_prod_beta Let_def split: option.splits)

lemma for_batches_effects:
  "\<forall>i b. filter P (fst (body i b)) = [] \<Longrightarrow>
   filter P (fst (for_batches body i G)) = filter P (effects G)"
  by (induction G arbitrary: i) (auto simp: case_prod_beta Let_def split: option.splits)

lemma snd_emit_pairs: "snd (emit_pairs m sh i ps) = i + length ps"
  by (induction ps arbitrary: i) (auto simp: case_prod_beta Let_def)

lemma emit_pairs_append:
  "fst (emit_pairs m sh i (ps @ qs)) =
     fst (emit_pairs m sh i ps) @ fst (emit_pairs m sh (i + length ps) qs)"
  by (induction ps arbitrary: i) (auto simp: case_prod_beta Let_def)

lemma emit_pairs_map:
  "fst (emit_pairs m sh i (zip xs ps)) = fst (emit_pairs m id i (zip (map sh xs) ps))"
  by (induction xs arbitrary: i ps)
     (auto simp: case_prod_beta Let_def zip_Cons1 split: list.splits)

lemma outputs_emit_pairs:
  "filter is_output (fst (emit_pairs m sh i ps)) = fst (emit_pairs m sh i ps)"
  by (induction ps arbitrary: i)
     (auto simp: case_prod_beta Let_def pm_maybe_print_to_console_and_file_def
           split: option.splits)

lemma calls_emit_pairs: "filter is_call (fst (emit_pairs m sh i ps)) = []"
  by (induction ps arbitrary: i)
     (auto simp: case_prod_beta Let_def pm_maybe_print_to_console_and_file_def
           split: option.splits)

lemma open_close_emit_pairs: "filter is_open_or_close (fst (emit_pairs m sh i ps)) = []"
  by (induction ps arbitrary: i)
     (auto simp: case_prod_beta Let_def pm_maybe_print_to_console_and_file_def
           split: option.splits)

text \<open>
  When every batch gets as many lines as it has records, the outputs of the batches, one
  after the other, are those of a single loop over all the records.
\<close>

lemma outputs_bodies_zip_loop:
  assumes "\<forall>b \<in> set bs. length (snd (predict b)) = length b \<and>
             filter is_output (fst (predict b)) = []"
  shows "filter is_output (fst (bodies (zip_loop m predict sh) i bs)) =
           fst (emit_pairs m sh i (zip (concat bs) (concat (map (\<lambda>b. snd (predict b)) bs))))"
  using assms
proof (induction bs arbitrary: i)
  case Nil
  then show ?case by simp
next
  case (Cons b bs)
  from Cons.prems have len: "length (snd (predict b)) = length b"
    and quiet: "filter is_output (fst (predict b)) = []" by simp_all
  from Cons.prems have rest: "\<forall>b \<in> set bs. length (snd (predict b)) = length b \<and>
      filter is_output (fst (predict b)) = []"
    by simp
  have idx: "snd (zip_loop m predict sh i b) = i + length b"
    by (simp add: zip_loop_def snd_emit_pairs len)
  have first: "filter is_output (fst (zip_loop m predict sh i b)) =
              fst (emit_pairs m sh i (zip b (snd (predict b))))"
    by (simp add: zip_loop_def quiet outputs_emit_pairs)
  have "filter is_output (fst (bodies (zip_loop m predict sh) i (b # bs))) =
          filter is_output (fst (zip_loop m predict sh i b)) @
          filter is_output (fst (bodies (zip_loop m predict sh) (i + length b) bs))"
    by (simp add: case_prod_beta Let_def idx)
  also have "\<dots> = fst (emit_pairs m sh i (zip b (snd (predict b)))) @
          fst (emit_pairs m sh (i + length b)
                (zip (concat bs) (concat (map (\<lambda>b. snd (predict b)) bs))))"
    by (simp add: first Cons.IH[OF rest])
  also have "\<dots> = fst (emit_pairs m sh i
          (zip b (snd (predict b)) @ zip (concat bs) (concat (map (\<lambda>b. snd (predict b)) bs))))"
    by (simp add: emit_pairs_append len)
  finally show ?case by (simp add: zip_append len)
qed

lemma calls_bodies_zip_loop:
  assumes "\<forall>b \<in> set bs. b \<noteq> [] \<and> fst (predict b) = [call b] \<and> is_call (call b)"
  shows "filter is_call (fst (bodies (zip_loop m predict sh) i bs)) = map call bs"
  using assms
  by (induction bs arbitrary: i)
     (auto simp: case_prod_beta Let_def zip_loop_def calls_emit_pairs)

lemma lazy_groups_yields:
  "1 \<le> k \<Longrightarrow> raised g = None \<Longrightarrow> yields (lazy_groups_of g k) = group_list (nat k) [] (yields g)"
  by (simp add: lazy_groups_of_def yields_groups_from)

lemma lazy_groups_concat:
  "1 \<le> k \<Longrightarrow> raised g = None \<Longrightarrow> concat (yields (lazy_groups_of g k)) = yields g"
  by (simp add: lazy_groups_yields concat_group_list)

lemma lazy_groups_nonempty: "raised g = None \<Longrightarrow> [] \<notin> set (yields (lazy_groups_of g k))"
  by (auto simp: lazy_groups_of_def yields_groups_from group_list_nonempty)

lemma lazy_groups_bounded:
  assumes "1 \<le> k" and "raised g = None" and "b \<in> set (yields (lazy_groups_of g k))"
  shows "length b \<le> nat k"
proof -
  from assms have "b \<in> set (group_list (nat k) [] (yields g))"
    by (simp add: lazy_groups_yields)
  then show ?thesis
    using assms(1) group_list_length[of "[]" "nat k" b "yields g"] by simp
qed

lemma lazy_groups_Raise: "yields (lazy_groups_of (Raise e) k) = []"
  by (simp add: lazy_groups_of_def)

lemma effects_lazy_groups: "set (effects (lazy_groups_of g k)) \<subseteq> set (effects g)"
  by (simp add: lazy_groups_of_def effects_groups_from)

lemma raised_lazy_groups: "1 \<le> k \<Longrightarrow> raised (lazy_groups_of g k) = raised g"
  by (simp add: lazy_groups_of_def raised_groups_from)

lemma effects_json_data:
  "e \<in> set (effects (pm_get_json_data w m)) \<Longrightarrow>
   \<not> is_output e \<and> \<not> is_call e \<and> \<not> is_open_or_close e"
  by (auto simp: pm_get_json_data_def Let_def effects_read_lines split: prod.splits if_splits)

lemma instance_data_cases:
  "(\<exists>e. pm_get_instance_data m = Raise e) \<or>
   (\<exists>f h xs. pm_get_instance_data m = Emit (ReaderRead f h) (yield_from xs))"
  by (auto simp: pm_get_instance_data_def split: option.splits dataset_reader.splits)

lemma effects_instance_data:
  "e \<in> set (effects (pm_get_instance_data m)) \<Longrightarrow>
   \<not> is_output e \<and> \<not> is_call e \<and> \<not> is_open_or_close e"
  using instance_data_cases[of m] by (auto simp: effects_yield_from)

lemma pm_init_reads_nothing:
  "filter is_read (fst (pm_init w p inp outp bs ptc hdr ctype head)) = []"
  by (simp add: pm_init_def Let_def split: option.splits)

lemma demo_get_predictor_silent:
  "get_predictor demo_framework (demo_args\<lparr>silent := True\<rparr>) = Inr demo_predictor"
  by (simp add: get_predictor_def demo_framework_def demo_args_def strip_def)

section \<open>The command line and the constructor\<close>

text \<open>
  The call of the constructor in \<^verbatim>\<open>_predict\<close> never hands a multitask head over: whatever
  manager it builds has no head, and the head of the command line is its compression type.
\<close>

lemma cli_manager_has_no_head:
  assumes "pm_init w p (input_file a) (output_file a) (batch_size a) (\<not> silent a)
             (use_dataset_reader a) (multitask_head a) None = (es, Inr m)"
  shows "m_multitask_head m = None \<and> m_compression_type m = multitask_head a"
  using assms by (auto simp: pm_init_def Let_def split: if_splits option.splits)

text \<open>
  So no invocation with a head and without a multitask reader is refused by the head
  checks of the constructor.
\<close>

lemma cli_never_rejects_head:
  assumes "multitask_head a \<noteq> None"
    and "\<not> is_multitask (kept_reader p (use_dataset_reader a))"
  shows "snd (pm_init w p (input_file a) (output_file a) (batch_size a) (\<not> silent a)
                (use_dataset_reader a) (multitask_head a) None)
         \<noteq> Inl (ConfigurationError msg)"
  using assms by (auto simp: pm_init_def Let_def kept_reader_def split: option.splits)

text \<open>
  C2: an invocation that supplies \<^verbatim>\<open>--multitask-head\<close> without a dataset reader should
  fail in the constructor with a configuration error before a record is read. The code
  at \<^verbatim>\<open>predict archive - --multitask-head ner\<close>, with four lines on standard input: the
  manager is built, the lines are read and predicted, and the run ends normally.
\<close>

theorem cli_drops_multitask_head:
  "predict_cmd demo_framework demo_world (demo_args\<lparr>multitask_head := Some ''ner''\<rparr>) =
     ([SetFileFriendlyLogging False, StdinLine ''a'', StdinLine '' '',
       StdinLine ''b'', PredictBatchJson [''a'', ''b''], PrintInput 0 ''a'',
       PrintPrediction ''a!.'', PrintInput 1 ''b'', PrintPrediction ''b!.'',
       StdinLine ''c'', PredictJson ''c'', PrintInput 2 ''c'',
       PrintPrediction ''c!.''],
      Inr ())"
  by (simp add: predict_cmd_def get_predictor_def demo_framework_def demo_args_def strip_def
        truthy_def pm_init_def pm_run_def lazy_groups_of_def pm_get_json_data_def demo_world_def
        demo_predictor_def isspace_def is_whitespace_def json_batch_def pm_predict_json_def
        pm_maybe_print_to_console_and_file_def)

text \<open>
  C4, as amended: when a head is given and no dataset reader is kept, or a head is given
  and the reader kept is not a multitask reader, or the reader kept is a multitask reader
  and no head is given, the constructor fails and has read no record; the failure is a
  configuration error whenever the output file, if one is given, could be opened. The
  file is opened before the checks, so a failure to open it comes first.
\<close>

theorem constructor_rejects_head_mismatch:
  assumes "(head \<noteq> None \<and> kept_reader p hdr = None)
           \<or> (head \<noteq> None \<and> \<not> is_multitask (kept_reader p hdr))
           \<or> (is_multitask (kept_reader p hdr) \<and> head = None)"
  shows "(\<exists>e. snd (pm_init w p inp outp bs ptc hdr ctype head) = Inl e)
         \<and> filter is_read (fst (pm_init w p inp outp bs ptc hdr ctype head)) = []
         \<and> ((case outp of None \<Rightarrow> True | Some f \<Rightarrow> open_output w f) \<longrightarrow>
              (\<exists>msg. snd (pm_init w p inp outp bs ptc hdr ctype head) = Inl (ConfigurationError msg)))"
proof -
  have failed: "\<exists>e. snd (pm_init w p inp outp bs ptc hdr ctype head) = Inl e"
    using assms
    by (cases hdr) (auto simp: pm_init_def Let_def kept_reader_def split: option.splits)
  have config: "(case outp of None \<Rightarrow> True | Some f \<Rightarrow> open_output w f) \<longrightarrow>
      (\<exists>msg. snd (pm_init w p inp outp bs ptc hdr ctype head) = Inl (ConfigurationError msg))"
    using assms
    by (cases hdr) (auto simp: pm_init_def Let_def kept_reader_def split: option.splits)
  from failed config show ?thesis by (simp add: pm_init_reads_nothing)
qed

theorem constructor_rejects_head_mismatch_witness:
  "Some ''ner'' \<noteq> (None :: string option) \<and> kept_reader demo_predictor False = None
   \<and> open_output demo_world ''out.txt''
   \<and> snd (pm_init demo_world demo_predictor ''-'' (Some ''out.txt'') 1 True False None (Some ''ner''))
       = Inl (ConfigurationError ''You must use a dataset reader when using --multitask-head.'')
   \<and> filter is_read
        (fst (pm_init demo_world demo_predictor ''-'' (Some ''out.txt'') 1 True False None (Some ''ner'')))
       = []"
  using constructor_rejects_head_mismatch
    [of "Some ''ner''" demo_predictor False demo_world "''-''" "Some ''out.txt''" 1 True None]
  by (simp add: pm_init_def kept_reader_def demo_world_def)

text \<open>
  The claim as it is written fails where the output file cannot be opened: a head is given
  and no reader is kept, and the constructor ends with the \<^verbatim>\<open>OSError\<close> of \<^verbatim>\<open>open\<close>.
\<close>

theorem constructor_open_failure_counterexample:
  "Some ''ner'' \<noteq> (None :: string option) \<and> kept_reader demo_predictor False = None
   \<and> pm_init demo_world demo_predictor ''-'' (Some ''/missing/out.txt'') 1 True False None (Some ''ner'')
       = ([], Inl OSError)"
  by (simp add: pm_init_def kept_reader_def demo_world_def)

text \<open>
  C7, as amended: when the silent flag is set, no output file is supplied and the predictor
  has been loaded, the command prints its two messages and exits with status 0; no manager
  is built, no record is read and no prediction is made. The predictor is loaded before
  the flag is looked at.
\<close>

theorem silent_without_output_exits_early:
  assumes "silent a" and "output_file a = None" and "get_predictor fw a = Inr p"
  shows "predict_cmd fw w a =
           ([SetFileFriendlyLogging (file_friendly_logging a),
             PrintMessage ''--silent specified without --output-file.'',
             PrintMessage ''Exiting early because no output will be created.''],
            Inl (SystemExit 0))"
  using assms by (simp add: predict_cmd_def truthy_def)

theorem silent_without_output_exits_early_witness:
  "silent (demo_args\<lparr>silent := True\<rparr>)
   \<and> output_file (demo_args\<lparr>silent := True\<rparr>) = None
   \<and> get_predictor demo_framework (demo_args\<lparr>silent := True\<rparr>) = Inr demo_predictor
   \<and> predict_cmd demo_framework demo_world (demo_args\<lparr>silent := True\<rparr>) =
       ([SetFileFriendlyLogging False,
         PrintMessage ''--silent specified without --output-file.'',
         PrintMessage ''Exiting early because no output will be created.''],
        Inl (SystemExit 0))"
  using silent_without_output_exits_early
    [of "demo_args\<lparr>silent := True\<rparr>" demo_framework demo_predictor demo_world]
    demo_get_predictor_silent
  by (simp add: demo_args_def)

text \<open>
  The claim as it is written fails where the predictor cannot be loaded: with
  \<^verbatim>\<open>--silent\<close>, no output file and \<^verbatim>\<open>--predictor-args "{"\<close> the command ends with the
  error of \<^verbatim>\<open>json.loads\<close>, prints no message and does not exit with status 0.
\<close>

theorem silent_without_output_counterexample:
  "silent (demo_args\<lparr>silent := True, predictor_args := ''{''\<rparr>)
   \<and> output_file (demo_args\<lparr>silent := True, predictor_args := ''{''\<rparr>) = None
   \<and> predict_cmd demo_framework demo_world (demo_args\<lparr>silent := True, predictor_args := ''{''\<rparr>) =
       ([SetFileFriendlyLogging False], Inl (OtherError ''JSONDecodeError''))"
  by (simp add: predict_cmd_def get_predictor_def demo_framework_def demo_args_def strip_def
        is_whitespace_def)

section \<open>Errors of a run\<close>

text \<open>
  C6, as amended: in a run in reader mode whose input file is \<^verbatim>\<open>-\<close> the instance
  generator raises the configuration error at once; the run takes no line from standard
  input, calls no dataset reader and makes no prediction, and with a batch size of at
  least 1 it fails with that configuration error, nothing having happened before.
\<close>

theorem stdin_refused_in_reader_mode:
  assumes "m_dataset_reader m \<noteq> None" and "m_input_file m = ''-''"
  shows "pm_get_instance_data m =
           Raise (ConfigurationError ''stdin is not an option when using a DatasetReader.'')
         \<and> filter is_read (fst (pm_run w m)) = []
         \<and> filter is_call (fst (pm_run w m)) = []
         \<and> (1 \<le> m_batch_size m \<longrightarrow>
              pm_run w m =
                ([], Inl (ConfigurationError ''stdin is not an option when using a DatasetReader.'')))"
  using assms
  by (simp add: pm_run_def pm_get_instance_data_def lazy_groups_of_def split: option.splits)

theorem stdin_refused_in_reader_mode_witness:
  "m_dataset_reader (demo_manager\<lparr>m_dataset_reader := predictor_dataset_reader demo_predictor\<rparr>) \<noteq> None
   \<and> m_input_file (demo_manager\<lparr>m_dataset_reader := predictor_dataset_reader demo_predictor\<rparr>) = ''-''
   \<and> 1 \<le> m_batch_size (demo_manager\<lparr>m_dataset_reader := predictor_dataset_reader demo_predictor\<rparr>)
   \<and> pm_run demo_world (demo_manager\<lparr>m_dataset_reader := predictor_dataset_reader demo_predictor\<rparr>) =
       ([], Inl (ConfigurationError ''stdin is not an option when using a DatasetReader.''))"
  using stdin_refused_in_reader_mode
    [of "demo_manager\<lparr>m_dataset_reader := predictor_dataset_reader demo_predictor\<rparr>" demo_world]
  by (simp add: demo_manager_def demo_predictor_def)

text \<open>
  The claim as it is written fails at the batch size 0, which the command line accepts:
  no group is taken, so the generator is never started, and the run in reader mode with
  the input file \<^verbatim>\<open>-\<close> ends normally, having closed the output file.
\<close>

theorem stdin_batch_size_zero_counterexample:
  "m_dataset_reader (demo_manager\<lparr>m_dataset_reader := predictor_dataset_reader demo_predictor,
                                  m_batch_size := 0\<rparr>) \<noteq> None
   \<and> m_input_file (demo_manager\<lparr>m_dataset_reader := predictor_dataset_reader demo_predictor,
                                 m_batch_size := 0\<rparr>) = ''-''
   \<and> pm_run demo_world (demo_manager\<lparr>m_dataset_reader := predictor_dataset_reader demo_predictor,
                                        m_batch_size := 0\<rparr>) =
       ([CloseOutput ''out.txt''], Inr ())"
  by (simp add: pm_run_def lazy_groups_of_def demo_manager_def demo_predictor_def)

text \<open>
  C8: in a run in raw-JSON mode with no compression type and an input file whose opening
  raises an \<^verbatim>\<open>OSError\<close>, the source produces no record, no prediction is made and the run
  ends normally; with a batch size of at least 1 the run opens the input, prints the
  message that asks for the compression type and closes the output file if there is one.
\<close>

theorem detection_failure_reported:
  assumes "m_dataset_reader m = None" and "m_input_file m \<noteq> ''-''"
    and "m_compression_type m = None"
    and "open_compressed w (cached_path w (m_input_file m)) None = ([], True)"
  shows "json_records w m = []
         \<and> snd (pm_run w m) = Inr ()
         \<and> filter is_call (fst (pm_run w m)) = []
         \<and> (1 \<le> m_batch_size m \<longrightarrow>
              pm_run w m =
                ([OpenInput (cached_path w (m_input_file m)) None,
                  PrintMessage
                    ''Automatic detection failed, please specify the compression type argument.'']
                 @ (case m_output_file m of None \<Rightarrow> [] | Some f \<Rightarrow> [CloseOutput f]),
                 Inr ()))"
  using assms
  by (simp add: pm_run_def pm_get_json_data_def json_records_def lazy_groups_of_def
        split: option.splits)

theorem detection_failure_reported_witness:
  "m_dataset_reader (demo_manager\<lparr>m_input_file := ''in.gz''\<rparr>) = None
   \<and> m_input_file (demo_manager\<lparr>m_input_file := ''in.gz''\<rparr>) \<noteq> ''-''
   \<and> m_compression_type (demo_manager\<lparr>m_input_file := ''in.gz''\<rparr>) = None
   \<and> open_compressed demo_world (cached_path demo_world ''in.gz'') None = ([], True)
   \<and> 1 \<le> m_batch_size (demo_manager\<lparr>m_input_file := ''in.gz''\<rparr>)
   \<and> pm_run demo_world (demo_manager\<lparr>m_input_file := ''in.gz''\<rparr>) =
       ([OpenInput ''in.gz'' None,
         PrintMessage ''Automatic detection failed, please specify the compression type argument.'',
         CloseOutput ''out.txt''],
        Inr ())"
  using detection_failure_reported [of "demo_manager\<lparr>m_input_file := ''in.gz''\<rparr>" demo_world]
  by (simp add: demo_manager_def demo_world_def)

section \<open>What a run calls and emits\<close>

lemma groups_from_nonempty: "[] \<notin> set (yields (groups_from n acc g))"
  by (induction g arbitrary: acc) auto

lemma batches_nonempty: "[] \<notin> set (yields (lazy_groups_of g k))"
  by (simp add: lazy_groups_of_def groups_from_nonempty)

lemma raised_lazy_groups_None: "raised g = None \<Longrightarrow> raised (lazy_groups_of g k) = None"
  by (simp add: lazy_groups_of_def raised_groups_from)

lemma filter_pm_run:
  assumes "\<And>f. \<not> P (CloseOutput f)"
  shows "filter P (fst (pm_run w m)) =
           filter P (fst (if m_dataset_reader m \<noteq> None then
               for_batches (instance_batch w m) 0
                 (lazy_groups_of (pm_get_instance_data m) (m_batch_size m))
             else
               for_batches (json_batch w m) 0
                 (lazy_groups_of (pm_get_json_data w m) (m_batch_size m))))"
  using assms by (simp add: pm_run_def Let_def case_prod_beta split: sum.splits option.splits)

lemma quiet_effects_json:
  "\<forall>e \<in> set (effects (lazy_groups_of (pm_get_json_data w m) k)).
     \<not> is_output e \<and> \<not> is_call e \<and> \<not> is_open_or_close e"
  using effects_lazy_groups[of "pm_get_json_data w m" k] effects_json_data[of _ w m] by blast

lemma quiet_effects_instance:
  "\<forall>e \<in> set (effects (lazy_groups_of (pm_get_instance_data m) k)).
     \<not> is_output e \<and> \<not> is_call e \<and> \<not> is_open_or_close e"
  using effects_lazy_groups[of "pm_get_instance_data m" k] effects_instance_data[of _ m] by blast

lemma predict_json_call: "b \<noteq> [] \<Longrightarrow> fst (pm_predict_json m b) = [spec_json_call b]"
  by (cases b) (auto simp: pm_predict_json_def spec_json_call_def split: list.splits)

lemma predict_instances_call:
  "b \<noteq> [] \<Longrightarrow> fst (pm_predict_instances m b) = [spec_instance_call b]"
  by (cases b) (auto simp: pm_predict_instances_def spec_instance_call_def split: list.splits)

lemma spec_json_call_is_call: "is_call (spec_json_call b)"
  by (simp add: spec_json_call_def split: list.splits)

lemma spec_instance_call_is_call: "is_call (spec_instance_call b)"
  by (simp add: spec_instance_call_def split: list.splits)

lemma calls_json_run:
  fixes m :: "('j, 'i, 'r) manager"
  assumes json: "m_dataset_reader m = None"
  shows "filter is_call (fst (pm_run w m)) = map spec_json_call (json_batches w m)"
proof -
  let ?G = "lazy_groups_of (pm_get_json_data w m) (m_batch_size m)"
  have "filter is_call (fst (pm_run w m)) = filter is_call (fst (for_batches (json_batch w m) 0 ?G))"
    using json by (simp add: filter_pm_run)
  also have "\<dots> = filter is_call (fst (bodies (json_batch w m) 0 (yields ?G)))"
    using quiet_effects_json[of w m] by (intro for_batches_filter) blast
  also have "\<dots> = map spec_json_call (yields ?G)"
  proof -
    have "\<forall>b \<in> set (yields ?G). b \<noteq> []"
      using batches_nonempty[of "pm_get_json_data w m" "m_batch_size m"] by auto
    then have "\<forall>b \<in> set (yields ?G). b \<noteq> [] \<and> fst (pm_predict_json m b) = [spec_json_call b]
        \<and> is_call (spec_json_call b :: ('j, 'i) event)"
      by (simp add: predict_json_call spec_json_call_is_call)
    then show ?thesis
      unfolding json_batch_zip_loop by (rule calls_bodies_zip_loop)
  qed
  finally show ?thesis by (simp add: json_batches_def)
qed

lemma calls_instance_run:
  fixes m :: "('j, 'i, 'r) manager"
  assumes reader: "m_dataset_reader m \<noteq> None"
  shows "filter is_call (fst (pm_run w m)) = map spec_instance_call (instance_batches m)"
proof -
  let ?G = "lazy_groups_of (pm_get_instance_data m) (m_batch_size m)"
  have "filter is_call (fst (pm_run w m)) =
          filter is_call (fst (for_batches (instance_batch w m) 0 ?G))"
    using reader by (simp add: filter_pm_run)
  also have "\<dots> = filter is_call (fst (bodies (instance_batch w m) 0 (yields ?G)))"
    using quiet_effects_instance[of m] by (intro for_batches_filter) blast
  also have "\<dots> = map spec_instance_call (yields ?G)"
  proof -
    have "\<forall>b \<in> set (yields ?G). b \<noteq> []"
      using batches_nonempty[of "pm_get_instance_data m" "m_batch_size m"] by auto
    then have "\<forall>b \<in> set (yields ?G). b \<noteq> []
        \<and> fst (pm_predict_instances m b) = [spec_instance_call b]
        \<and> is_call (spec_instance_call b :: ('j, 'i) event)"
      by (simp add: predict_instances_call spec_instance_call_is_call)
    then show ?thesis
      unfolding instance_batch_zip_loop by (rule calls_bodies_zip_loop)
  qed
  finally show ?thesis by (simp add: instance_batches_def)
qed

section \<open>Blank lines of the raw-JSON input\<close>

lemma json_records_lines:
  "json_records w m =
     map (load_line (m_predictor m)) (filter (\<lambda>l. \<not> isspace l) (input_lines w m))"
  by (auto simp: json_records_def input_lines_def pm_get_json_data_def Let_def yields_read_lines
           split: prod.splits)

lemma concat_records_of_calls:
  "concat (map json_records_of_call es) = concat (map json_records_of_call (filter is_call es))"
proof (induction es)
  case Nil
  then show ?case by simp
next
  case (Cons e es)
  then show ?case by (cases e) simp_all
qed

lemma records_of_spec_call: "b \<noteq> [] \<Longrightarrow> json_records_of_call (spec_json_call b) = b"
  by (cases b) (auto simp: spec_json_call_def split: list.splits)

lemma json_batches_concat:
  "1 \<le> m_batch_size m \<Longrightarrow> concat (json_batches w m) = json_records w m"
  by (simp add: json_batches_def json_records_def lazy_groups_concat raised_json_data)

text \<open>
  C10: in raw-JSON mode the records of the source are \<^verbatim>\<open>load_line\<close> of the input lines
  that \<^verbatim>\<open>isspace\<close> does not hold of, in their order, and with a batch size of at least 1
  the records handed to the predictor, call after call, are the same list; the input
  lines are those of standard input or of the opened file, with or without a compression
  type. A line that iteration over a file delivers is never empty, and a blank one is a
  line break, of which \<^verbatim>\<open>isspace\<close> holds.
\<close>

theorem whitespace_lines_skipped:
  fixes m :: "('j, 'i, 'r) manager" and w :: "('j, 'i) world"
  assumes "m_dataset_reader m = None"
  shows "json_records w m =
           map (load_line (m_predictor m)) (filter (\<lambda>l. \<not> isspace l) (input_lines w m))
         \<and> (1 \<le> m_batch_size m \<longrightarrow>
              concat (map json_records_of_call (fst (pm_run w m))) =
              map (load_line (m_predictor m)) (filter (\<lambda>l. \<not> isspace l) (input_lines w m)))"
proof -
  let ?call = "spec_json_call :: 'j list \<Rightarrow> ('j, 'i) event"
  have ne: "\<forall>b \<in> set (json_batches w m). b \<noteq> []"
    using batches_nonempty[of "pm_get_json_data w m" "m_batch_size m"]
    by (auto simp: json_batches_def)
  have calls: "filter is_call (fst (pm_run w m)) = map ?call (json_batches w m)"
    using assms(1) by (rule calls_json_run)
  have "concat (map json_records_of_call (fst (pm_run w m))) =
          concat (map json_records_of_call (filter is_call (fst (pm_run w m))))"
    by (rule concat_records_of_calls)
  also have "\<dots> = concat (map json_records_of_call (map ?call (json_batches w m)))"
    by (simp only: calls)
  also have "map json_records_of_call (map ?call (json_batches w m)) = json_batches w m"
    using ne by (simp add: map_idI records_of_spec_call)
  finally have "concat (map json_records_of_call (fst (pm_run w m))) = concat (json_batches w m)" .
  then show ?thesis by (simp add: json_records_lines[symmetric] json_batches_concat)
qed

theorem whitespace_lines_skipped_witness:
  "m_dataset_reader (demo_manager\<lparr>m_input_file := ''in.jsonl''\<rparr>) = None
   \<and> 1 \<le> m_batch_size (demo_manager\<lparr>m_input_file := ''in.jsonl''\<rparr>)
   \<and> input_lines demo_world (demo_manager\<lparr>m_input_file := ''in.jsonl''\<rparr>) = [''u'', [CHR 0x0A], ''v'']
   \<and> json_records demo_world (demo_manager\<lparr>m_input_file := ''in.jsonl''\<rparr>) = [''u'', ''v'']
   \<and> concat (map json_records_of_call
        (fst (pm_run demo_world (demo_manager\<lparr>m_input_file := ''in.jsonl''\<rparr>)))) = [''u'', ''v'']"
  using whitespace_lines_skipped [of "demo_manager\<lparr>m_input_file := ''in.jsonl''\<rparr>" demo_world]
  by (simp add: demo_manager_def demo_world_def demo_predictor_def input_lines_def isspace_def
        is_whitespace_def)

section \<open>The output file\<close>

lemma open_close_zip_loop:
  "\<forall>b. filter is_open_or_close (fst (predict b)) = [] \<Longrightarrow>
   filter is_open_or_close (fst (zip_loop m predict sh i b)) = []"
  by (simp add: zip_loop_def open_close_emit_pairs)

lemma open_close_predict_json: "filter is_open_or_close (fst (pm_predict_json m b)) = []"
  by (simp add: pm_predict_json_def)

lemma open_close_predict_instances:
  "filter is_open_or_close (fst (pm_predict_instances m b)) = []"
  by (simp add: pm_predict_instances_def)

lemma open_close_loops:
  "filter is_open_or_close
     (fst (for_batches (json_batch w m) 0 (lazy_groups_of (pm_get_json_data w m) k))) = []"
  "filter is_open_or_close
     (fst (for_batches (instance_batch w m) 0 (lazy_groups_of (pm_get_instance_data m) k))) = []"
proof -
  have "filter is_open_or_close
     (fst (for_batches (json_batch w m) 0 (lazy_groups_of (pm_get_json_data w m) k))) =
     filter is_open_or_close (effects (lazy_groups_of (pm_get_json_data w m) k))"
    by (rule for_batches_effects)
       (simp add: json_batch_zip_loop open_close_zip_loop open_close_predict_json)
  then show "filter is_open_or_close
     (fst (for_batches (json_batch w m) 0 (lazy_groups_of (pm_get_json_data w m) k))) = []"
    using quiet_effects_json[of w m k] by (simp add: filter_empty_conv)
  have "filter is_open_or_close
     (fst (for_batches (instance_batch w m) 0 (lazy_groups_of (pm_get_instance_data m) k))) =
     filter is_open_or_close (effects (lazy_groups_of (pm_get_instance_data m) k))"
    by (rule for_batches_effects)
       (simp add: instance_batch_zip_loop open_close_zip_loop open_close_predict_instances)
  then show "filter is_open_or_close
     (fst (for_batches (instance_batch w m) 0 (lazy_groups_of (pm_get_instance_data m) k))) = []"
    using quiet_effects_instance[of m k] by (simp add: filter_empty_conv)
qed

lemma pm_run_normal:
  assumes "pm_run w m = (es, Inr ())"
  shows "filter is_open_or_close es =
           (case m_output_file m of None \<Rightarrow> [] | Some f \<Rightarrow> [CloseOutput f])
         \<and> (case m_output_file m of None \<Rightarrow> True | Some f \<Rightarrow> es \<noteq> [] \<and> last es = CloseOutput f)"
  using assms open_close_loops[of w m "m_batch_size m"]
  by (auto simp: pm_run_def Let_def case_prod_beta split: sum.splits option.splits if_splits)

lemma pm_init_ok:
  assumes "pm_init w p inp outp bs ptc hdr ctype head = (es0, Inr m)"
  shows "m_output_file m = outp \<and> es0 = (case outp of None \<Rightarrow> [] | Some f \<Rightarrow> [OpenOutput f])"
  using assms by (auto simp: pm_init_def Let_def split: if_splits option.splits)

text \<open>
  C9: for a manager that the constructor has built and a run of it that ends normally: with
  an output path, the file is opened once, by the constructor, and closed once, as the last
  thing the run does, also when no record was processed; without an output path nothing
  is opened or closed.
\<close>

theorem output_closed_exactly_once:
  assumes "pm_init w p inp outp bs ptc hdr ctype head = (es0, Inr m)"
    and "pm_run w m = (es, Inr ())"
  shows "filter is_open_or_close (es0 @ es) =
           (case outp of None \<Rightarrow> [] | Some f \<Rightarrow> [OpenOutput f, CloseOutput f])
         \<and> (case outp of None \<Rightarrow> True | Some f \<Rightarrow> es \<noteq> [] \<and> last es = CloseOutput f)"
  using pm_init_ok[OF assms(1)] pm_run_normal[OF assms(2)]
  by (auto split: option.splits)

theorem output_closed_exactly_once_witness:
  "pm_init demo_world demo_predictor ''in.gz'' (Some ''out.txt'') 2 True False None None =
     ([OpenOutput ''out.txt''], Inr (demo_manager\<lparr>m_input_file := ''in.gz''\<rparr>))
   \<and> pm_run demo_world (demo_manager\<lparr>m_input_file := ''in.gz''\<rparr>) =
       ([OpenInput ''in.gz'' None,
         PrintMessage ''Automatic detection failed, please specify the compression type argument.'',
         CloseOutput ''out.txt''], Inr ())
   \<and> filter is_open_or_close
        ([OpenOutput ''out.txt''] @
         [OpenInput ''in.gz'' None,
          PrintMessage ''Automatic detection failed, please specify the compression type argument.'',
          CloseOutput ''out.txt''] :: (string, string) event list)
       = [OpenOutput ''out.txt'', CloseOutput ''out.txt'']"
proof -
  have built: "pm_init demo_world demo_predictor ''in.gz'' (Some ''out.txt'') 2 True False None None =
     ([OpenOutput ''out.txt''], Inr (demo_manager\<lparr>m_input_file := ''in.gz''\<rparr>))"
    by (simp add: pm_init_def demo_world_def demo_manager_def)
  have ran: "pm_run demo_world (demo_manager\<lparr>m_input_file := ''in.gz''\<rparr>) =
       ([OpenInput ''in.gz'' None,
         PrintMessage ''Automatic detection failed, please specify the compression type argument.'',
         CloseOutput ''out.txt''], Inr ())"
    by (simp add: pm_run_def pm_get_json_data_def lazy_groups_of_def demo_world_def
          demo_manager_def)
  from output_closed_exactly_once [OF built ran] built ran show ?thesis by simp
qed

section \<open>One prediction for each record\<close>

lemma printed_inputs_outputs: "printed_inputs (filter is_output es) = printed_inputs es"
proof (induction es)
  case Nil
  then show ?case by simp
next
  case (Cons e es)
  then show ?case by (cases e) simp_all
qed

lemma printed_predictions_outputs:
  "printed_predictions (filter is_output es) = printed_predictions es"
proof (induction es)
  case Nil
  then show ?case by simp
next
  case (Cons e es)
  then show ?case by (cases e) simp_all
qed

lemma written_predictions_outputs:
  "written_predictions (filter is_output es) = written_predictions es"
proof (induction es)
  case Nil
  then show ?case by simp
next
  case (Cons e es)
  then show ?case by (cases e) simp_all
qed

lemma printed_inputs_emit_pairs:
  "length xs = length ps \<Longrightarrow>
   printed_inputs (fst (emit_pairs m id i (zip xs ps))) =
     (if m_print_to_console m then zip [i..<i + length xs] xs else [])"
proof (induction xs arbitrary: ps i)
  case Nil
  then show ?case by simp
next
  case (Cons x xs)
  then obtain q qs where ps: "ps = q # qs" and len: "length xs = length qs"
    by (cases ps) auto
  have "[i..<i + length (x # xs)] = i # [Suc i..<Suc i + length xs]"
    by (subst upt_rec) simp
  then show ?case
    using Cons.IH[OF len, of "Suc i"]
    by (simp add: ps case_prod_beta Let_def pm_maybe_print_to_console_and_file_def
          split: option.splits)
qed

lemma printed_predictions_emit_pairs:
  "length xs = length ps \<Longrightarrow>
   printed_predictions (fst (emit_pairs m id i (zip xs ps))) =
     (if m_print_to_console m then ps else [])"
proof (induction xs arbitrary: ps i)
  case Nil
  then show ?case by simp
next
  case (Cons x xs)
  then obtain q qs where ps: "ps = q # qs" and len: "length xs = length qs"
    by (cases ps) auto
  show ?case
    using Cons.IH[OF len, of "Suc i"]
    by (simp add: ps case_prod_beta Let_def pm_maybe_print_to_console_and_file_def
          split: option.splits)
qed

lemma written_predictions_emit_pairs:
  "length xs = length ps \<Longrightarrow>
   written_predictions (fst (emit_pairs m id i (zip xs ps))) =
     (case m_output_file m of None \<Rightarrow> [] | Some f \<Rightarrow> ps)"
proof (induction xs arbitrary: ps i)
  case Nil
  then show ?case by (simp split: option.splits)
next
  case (Cons x xs)
  then obtain q qs where ps: "ps = q # qs" and len: "length xs = length qs"
    by (cases ps) auto
  show ?case
    using Cons.IH[OF len, of "Suc i"]
    by (simp add: ps case_prod_beta Let_def pm_maybe_print_to_console_and_file_def
          split: option.splits)
qed

lemma outputs_predict_json: "filter is_output (fst (pm_predict_json m b)) = []"
  by (simp add: pm_predict_json_def)

lemma outputs_predict_instances: "filter is_output (fst (pm_predict_instances m b)) = []"
  by (simp add: pm_predict_instances_def)

lemma length_predict_json:
  "\<forall>xs. length (predict_batch_json (m_predictor m) xs) = length xs \<Longrightarrow>
   length (snd (pm_predict_json m b)) = length b"
  by (simp add: pm_predict_json_def)

lemma length_predict_instances:
  "\<forall>xs. length (predict_batch_instance (m_predictor m) xs) = length xs \<Longrightarrow>
   length (snd (pm_predict_instances m b)) = length b"
  by (simp add: pm_predict_instances_def)

lemma outputs_json_run:
  fixes m :: "('j, 'i, 'r) manager"
  assumes json: "m_dataset_reader m = None"
    and len: "\<forall>xs. length (predict_batch_json (m_predictor m) xs) = length xs"
  shows "filter is_output (fst (pm_run w m)) =
           fst (emit_pairs m (json_dumps w) 0
             (zip (concat (json_batches w m))
                  (concat (map (\<lambda>b. snd (pm_predict_json m b)) (json_batches w m)))))"
proof -
  let ?G = "lazy_groups_of (pm_get_json_data w m) (m_batch_size m)"
  have "filter is_output (fst (pm_run w m)) =
          filter is_output (fst (for_batches (json_batch w m) 0 ?G))"
    using json by (simp add: filter_pm_run)
  also have "\<dots> = filter is_output (fst (bodies (json_batch w m) 0 (yields ?G)))"
    using quiet_effects_json[of w m] by (intro for_batches_filter) blast
  also have "\<dots> = fst (emit_pairs m (json_dumps w) 0
             (zip (concat (yields ?G)) (concat (map (\<lambda>b. snd (pm_predict_json m b)) (yields ?G)))))"
    unfolding json_batch_zip_loop
    by (rule outputs_bodies_zip_loop) (simp add: length_predict_json[OF len] outputs_predict_json)
  finally show ?thesis by (simp add: json_batches_def)
qed

lemma outputs_instance_run:
  fixes m :: "('j, 'i, 'r) manager"
  assumes reader: "m_dataset_reader m \<noteq> None"
    and len: "\<forall>xs. length (predict_batch_instance (m_predictor m) xs) = length xs"
  shows "filter is_output (fst (pm_run w m)) =
           fst (emit_pairs m (str_instance w) 0
             (zip (concat (instance_batches m))
                  (concat (map (\<lambda>b. snd (pm_predict_instances m b)) (instance_batches m)))))"
proof -
  let ?G = "lazy_groups_of (pm_get_instance_data m) (m_batch_size m)"
  have "filter is_output (fst (pm_run w m)) =
          filter is_output (fst (for_batches (instance_batch w m) 0 ?G))"
    using reader by (simp add: filter_pm_run)
  also have "\<dots> = filter is_output (fst (bodies (instance_batch w m) 0 (yields ?G)))"
    using quiet_effects_instance[of m] by (intro for_batches_filter) blast
  also have "\<dots> = fst (emit_pairs m (str_instance w) 0
             (zip (concat (yields ?G))
                  (concat (map (\<lambda>b. snd (pm_predict_instances m b)) (yields ?G)))))"
    unfolding instance_batch_zip_loop
    by (rule outputs_bodies_zip_loop)
       (simp add: length_predict_instances[OF len] outputs_predict_instances)
  finally show ?thesis by (simp add: instance_batches_def)
qed

lemma instance_batches_concat:
  "1 \<le> m_batch_size m \<Longrightarrow> concat (instance_batches m) = instance_records m"
  using instance_data_cases[of m]
  by (auto simp: instance_batches_def instance_records_def lazy_groups_Raise lazy_groups_concat
        raised_yield_from)

lemma length_concat_map:
  "\<forall>b \<in> set bs. length (f b) = length b \<Longrightarrow> length (concat (map f bs)) = length (concat bs)"
  by (induction bs) auto

text \<open>The outputs of a run in terms of the records and the lines of the batches.\<close>

lemma run_outputs:
  fixes m :: "('j, 'i, 'r) manager"
  assumes size: "1 \<le> m_batch_size m"
    and lenj: "\<forall>xs. length (predict_batch_json (m_predictor m) xs) = length xs"
    and leni: "\<forall>xs. length (predict_batch_instance (m_predictor m) xs) = length xs"
  shows "map length (batch_predictions w m) = batch_sizes w m"
    and "length (concat (batch_predictions w m)) = length (shown_records w m)"
    and "filter is_output (fst (pm_run w m)) =
           fst (emit_pairs m id 0 (zip (shown_records w m) (concat (batch_predictions w m))))"
proof -
  show sizes: "map length (batch_predictions w m) = batch_sizes w m"
    by (simp add: batch_predictions_def batch_sizes_def length_predict_json[OF lenj]
          length_predict_instances[OF leni] split: option.splits)
  show "length (concat (batch_predictions w m)) = length (shown_records w m)"
  proof (cases "m_dataset_reader m")
    case None
    then show ?thesis
      using json_batches_concat[OF size, of w]
        length_concat_map[of "json_batches w m" "\<lambda>b. snd (pm_predict_json m b)"]
      by (simp add: batch_predictions_def shown_records_def length_predict_json[OF lenj])
  next
    case (Some r)
    then show ?thesis
      using instance_batches_concat[OF size]
        length_concat_map[of "instance_batches m" "\<lambda>b. snd (pm_predict_instances m b)"]
      by (simp add: batch_predictions_def shown_records_def length_predict_instances[OF leni])
  qed
  show "filter is_output (fst (pm_run w m)) =
           fst (emit_pairs m id 0 (zip (shown_records w m) (concat (batch_predictions w m))))"
  proof (cases "m_dataset_reader m")
    case None
    then show ?thesis
      using outputs_json_run[OF None lenj, of w] json_batches_concat[OF size, of w]
      by (simp add: batch_predictions_def shown_records_def emit_pairs_map[of m "json_dumps w"])
  next
    case (Some r)
    then have reader: "m_dataset_reader m \<noteq> None" by simp
    show ?thesis
      using outputs_instance_run[OF reader leni, of w] instance_batches_concat[OF size] Some
      by (simp add: batch_predictions_def shown_records_def emit_pairs_map[of m "str_instance w"])
  qed
qed

lemma list_all2_function: "list_all2 (\<lambda>x r. r = f x) xs rs = (rs = map f xs)"
proof (induction xs arbitrary: rs)
  case Nil
  then show ?case by simp
next
  case (Cons x xs)
  then show ?case by (cases rs) auto
qed

lemma batches_belong:
  assumes "\<forall>b \<in> set bs. \<exists>rs. list_all2 R b rs \<and> f b = map d rs"
  shows "\<exists>rs. list_all2 R (concat bs) rs \<and> concat (map f bs) = map d rs"
  using assms
proof (induction bs)
  case Nil
  then show ?case by simp
next
  case (Cons b bs)
  then obtain rs where rs: "list_all2 R b rs" "f b = map d rs" by auto
  from Cons obtain ss where ss: "list_all2 R (concat bs) ss" "concat (map f bs) = map d ss"
    by auto
  have "list_all2 R (concat (b # bs)) (rs @ ss)"
    using rs(1) ss(1) by (simp add: list_all2_appendI)
  moreover have "concat (map f (b # bs)) = map d (rs @ ss)"
    using rs(2) ss(2) by simp
  ultimately show ?case by blast
qed

lemma predict_json_belongs:
  assumes "\<forall>x. R x (predict_json (m_predictor m) x)"
    and "\<forall>xs. list_all2 R xs (predict_batch_json (m_predictor m) xs)"
    and "b \<noteq> []"
  shows "\<exists>rs. list_all2 R b rs \<and> snd (pm_predict_json m b) = map (dump_line (m_predictor m)) rs"
proof (cases "length b = 1")
  case True
  then obtain x where b: "b = [x]" by (cases b) auto
  have "list_all2 R b [predict_json (m_predictor m) x]" using assms(1) by (simp add: b)
  moreover have "snd (pm_predict_json m b) =
      map (dump_line (m_predictor m)) [predict_json (m_predictor m) x]"
    by (simp add: pm_predict_json_def b)
  ultimately show ?thesis by blast
next
  case False
  have "list_all2 R b (predict_batch_json (m_predictor m) b)" using assms(2) by simp
  moreover have "snd (pm_predict_json m b) =
      map (dump_line (m_predictor m)) (predict_batch_json (m_predictor m) b)"
    using False by (simp add: pm_predict_json_def)
  ultimately show ?thesis by blast
qed

lemma predict_instances_belongs:
  assumes "\<forall>x. Q x (predict_instance (m_predictor m) x)"
    and "\<forall>xs. list_all2 Q xs (predict_batch_instance (m_predictor m) xs)"
    and "b \<noteq> []"
  shows "\<exists>rs. list_all2 Q b rs \<and>
           snd (pm_predict_instances m b) = map (dump_line (m_predictor m)) rs"
proof (cases "length b = 1")
  case True
  then obtain x where b: "b = [x]" by (cases b) auto
  have "list_all2 Q b [predict_instance (m_predictor m) x]" using assms(1) by (simp add: b)
  moreover have "snd (pm_predict_instances m b) =
      map (dump_line (m_predictor m)) [predict_instance (m_predictor m) x]"
    by (simp add: pm_predict_instances_def b)
  ultimately show ?thesis by blast
next
  case False
  have "list_all2 Q b (predict_batch_instance (m_predictor m) b)" using assms(2) by simp
  moreover have "snd (pm_predict_instances m b) =
      map (dump_line (m_predictor m)) (predict_batch_instance (m_predictor m) b)"
    using False by (simp add: pm_predict_instances_def)
  ultimately show ?thesis by blast
qed

lemma results_belong:
  fixes m :: "('j, 'i, 'r) manager"
  assumes size: "1 \<le> m_batch_size m"
    and rj: "\<forall>x. R x (predict_json (m_predictor m) x)"
    and rbj: "\<forall>xs. list_all2 R xs (predict_batch_json (m_predictor m) xs)"
    and qi: "\<forall>x. Q x (predict_instance (m_predictor m) x)"
    and qbi: "\<forall>xs. list_all2 Q xs (predict_batch_instance (m_predictor m) xs)"
  shows "\<exists>rs. (case m_dataset_reader m of
                 None \<Rightarrow> list_all2 R (json_records w m) rs
               | Some r \<Rightarrow> list_all2 Q (instance_records m) rs)
              \<and> concat (batch_predictions w m) = map (dump_line (m_predictor m)) rs"
proof (cases "m_dataset_reader m")
  case None
  have "\<forall>b \<in> set (json_batches w m). \<exists>rs. list_all2 R b rs \<and>
      snd (pm_predict_json m b) = map (dump_line (m_predictor m)) rs"
    using batches_nonempty[of "pm_get_json_data w m" "m_batch_size m"]
    by (auto simp: json_batches_def intro!: predict_json_belongs[OF rj rbj])
  then have "\<exists>rs. list_all2 R (concat (json_batches w m)) rs \<and>
      concat (map (\<lambda>b. snd (pm_predict_json m b)) (json_batches w m)) =
      map (dump_line (m_predictor m)) rs"
    by (rule batches_belong)
  then show ?thesis
    using None json_batches_concat[OF size, of w] by (simp add: batch_predictions_def)
next
  case (Some r)
  have "\<forall>b \<in> set (instance_batches m). \<exists>rs. list_all2 Q b rs \<and>
      snd (pm_predict_instances m b) = map (dump_line (m_predictor m)) rs"
    using batches_nonempty[of "pm_get_instance_data m" "m_batch_size m"]
    by (auto simp: instance_batches_def intro!: predict_instances_belongs[OF qi qbi])
  then have "\<exists>rs. list_all2 Q (concat (instance_batches m)) rs \<and>
      concat (map (\<lambda>b. snd (pm_predict_instances m b)) (instance_batches m)) =
      map (dump_line (m_predictor m)) rs"
    by (rule batches_belong)
  then show ?thesis
    using Some instance_batches_concat[OF size] by (simp add: batch_predictions_def)
qed

text \<open>
  C1: let the batch size be at least 1 and let the operations of the predictor respect a
  correspondence between inputs and results: the result of the single-record operation
  belongs to its input, and the batch operation returns one result for each input, the
  result at a position belonging to the input at that position (\<open>R\<close> for JSON records,
  \<open>Q\<close> for instances; the correspondence that always holds leaves the count alone). Then
  there are results \<open>rs\<close>, one for each record of the source and belonging to it, position
  by position, such that the run prints the records with the indices from 0 on and prints
  and writes exactly the dumped lines of \<open>rs\<close>, in the order of the records; the batches
  are the records of the source in their order, and every batch gets as many lines as it
  has records.
\<close>

theorem one_prediction_per_record:
  fixes m :: "('j, 'i, 'r) manager" and R :: "'j \<Rightarrow> 'r \<Rightarrow> bool" and Q :: "'i \<Rightarrow> 'r \<Rightarrow> bool"
  assumes size: "1 \<le> m_batch_size m"
    and rj: "\<forall>x. R x (predict_json (m_predictor m) x)"
    and rbj: "\<forall>xs. list_all2 R xs (predict_batch_json (m_predictor m) xs)"
    and qi: "\<forall>x. Q x (predict_instance (m_predictor m) x)"
    and qbi: "\<forall>xs. list_all2 Q xs (predict_batch_instance (m_predictor m) xs)"
  shows "\<exists>rs.
           (case m_dataset_reader m of
              None \<Rightarrow> list_all2 R (json_records w m) rs
            | Some r \<Rightarrow> list_all2 Q (instance_records m) rs)
         \<and> length rs = length (shown_records w m)
         \<and> printed_inputs (fst (pm_run w m)) =
             (if m_print_to_console m
              then zip [0..<length (shown_records w m)] (shown_records w m) else [])
         \<and> printed_predictions (fst (pm_run w m)) =
             (if m_print_to_console m then map (dump_line (m_predictor m)) rs else [])
         \<and> written_predictions (fst (pm_run w m)) =
             (case m_output_file m of
                None \<Rightarrow> [] | Some f \<Rightarrow> map (dump_line (m_predictor m)) rs)
         \<and> filter is_output (fst (pm_run w m)) =
             fst (emit_pairs m id 0
                    (zip (shown_records w m) (map (dump_line (m_predictor m)) rs)))
         \<and> map length (batch_predictions w m) = batch_sizes w m
         \<and> (case m_dataset_reader m of
               None \<Rightarrow> concat (json_batches w m) = json_records w m
             | Some r \<Rightarrow> concat (instance_batches m) = instance_records m)"
proof -
  have lenj: "\<forall>xs. length (predict_batch_json (m_predictor m) xs) = length xs"
  proof
    fix xs
    from rbj have "list_all2 R xs (predict_batch_json (m_predictor m) xs)" by (rule spec)
    then show "length (predict_batch_json (m_predictor m) xs) = length xs"
      by (simp add: list_all2_lengthD)
  qed
  have leni: "\<forall>xs. length (predict_batch_instance (m_predictor m) xs) = length xs"
  proof
    fix xs
    from qbi have "list_all2 Q xs (predict_batch_instance (m_predictor m) xs)" by (rule spec)
    then show "length (predict_batch_instance (m_predictor m) xs) = length xs"
      by (simp add: list_all2_lengthD)
  qed
  note out = run_outputs[OF size lenj leni, of w]
  from results_belong[OF size rj rbj qi qbi, of w]
  obtain rs where belong: "(case m_dataset_reader m of
                 None \<Rightarrow> list_all2 R (json_records w m) rs
               | Some r \<Rightarrow> list_all2 Q (instance_records m) rs)"
    and lines: "concat (batch_predictions w m) = map (dump_line (m_predictor m)) rs"
    by blast
  let ?ps = "map (dump_line (m_predictor m)) rs"
  have len: "length (shown_records w m) = length ?ps"
    using out(2) by (simp add: lines)
  have outputs: "filter is_output (fst (pm_run w m)) =
      fst (emit_pairs m id 0 (zip (shown_records w m) ?ps))"
    using out(3) by (simp only: lines)
  have parts: "(case m_dataset_reader m of
               None \<Rightarrow> concat (json_batches w m) = json_records w m
             | Some r \<Rightarrow> concat (instance_batches m) = instance_records m)"
    using json_batches_concat[OF size, of w] instance_batches_concat[OF size]
    by (simp split: option.splits)
  have inputs: "printed_inputs (fst (pm_run w m)) =
             (if m_print_to_console m
              then zip [0..<length (shown_records w m)] (shown_records w m) else [])"
  proof -
    have "printed_inputs (fst (pm_run w m)) = printed_inputs (filter is_output (fst (pm_run w m)))"
      by (simp add: printed_inputs_outputs)
    also have "\<dots> = printed_inputs (fst (emit_pairs m id 0 (zip (shown_records w m) ?ps)))"
      by (simp only: outputs)
    also have "\<dots> = (if m_print_to_console m
              then zip [0..<0 + length (shown_records w m)] (shown_records w m) else [])"
      using len by (rule printed_inputs_emit_pairs)
    finally show ?thesis by simp
  qed
  have printed: "printed_predictions (fst (pm_run w m)) =
             (if m_print_to_console m then ?ps else [])"
  proof -
    have "printed_predictions (fst (pm_run w m)) =
        printed_predictions (filter is_output (fst (pm_run w m)))"
      by (simp add: printed_predictions_outputs)
    also have "\<dots> = printed_predictions (fst (emit_pairs m id 0 (zip (shown_records w m) ?ps)))"
      by (simp only: outputs)
    also have "\<dots> = (if m_print_to_console m then ?ps else [])"
      using len by (rule printed_predictions_emit_pairs)
    finally show ?thesis .
  qed
  have written: "written_predictions (fst (pm_run w m)) =
             (case m_output_file m of None \<Rightarrow> [] | Some f \<Rightarrow> ?ps)"
  proof -
    have "written_predictions (fst (pm_run w m)) =
        written_predictions (filter is_output (fst (pm_run w m)))"
      by (simp add: written_predictions_outputs)
    also have "\<dots> = written_predictions (fst (emit_pairs m id 0 (zip (shown_records w m) ?ps)))"
      by (simp only: outputs)
    also have "\<dots> = (case m_output_file m of None \<Rightarrow> [] | Some f \<Rightarrow> ?ps)"
      using len by (rule written_predictions_emit_pairs)
    finally show ?thesis .
  qed
  have count: "length rs = length (shown_records w m)"
    using len by simp
  have "(case m_dataset_reader m of
              None \<Rightarrow> list_all2 R (json_records w m) rs
            | Some r \<Rightarrow> list_all2 Q (instance_records m) rs)
         \<and> length rs = length (shown_records w m)
         \<and> printed_inputs (fst (pm_run w m)) =
             (if m_print_to_console m
              then zip [0..<length (shown_records w m)] (shown_records w m) else [])
         \<and> printed_predictions (fst (pm_run w m)) =
             (if m_print_to_console m then map (dump_line (m_predictor m)) rs else [])
         \<and> written_predictions (fst (pm_run w m)) =
             (case m_output_file m of
                None \<Rightarrow> [] | Some f \<Rightarrow> map (dump_line (m_predictor m)) rs)
         \<and> filter is_output (fst (pm_run w m)) =
             fst (emit_pairs m id 0
                    (zip (shown_records w m) (map (dump_line (m_predictor m)) rs)))
         \<and> map length (batch_predictions w m) = batch_sizes w m
         \<and> (case m_dataset_reader m of
               None \<Rightarrow> concat (json_batches w m) = json_records w m
             | Some r \<Rightarrow> concat (instance_batches m) = instance_records m)"
    by (intro conjI) (fact belong count inputs printed written outputs out(1) parts)+
  then show ?thesis by (rule exI[where x = rs])
qed

theorem one_prediction_per_record_witness:
  "1 \<le> m_batch_size demo_manager
   \<and> (\<forall>x. predict_json (m_predictor demo_manager) x = x @ ''!'')
   \<and> (\<forall>xs. list_all2 (\<lambda>x r. r = x @ ''!'') xs (predict_batch_json (m_predictor demo_manager) xs))
   \<and> (\<forall>x. predict_instance (m_predictor demo_manager) x = x @ ''?'')
   \<and> (\<forall>xs. list_all2 (\<lambda>x r. r = x @ ''?'') xs
              (predict_batch_instance (m_predictor demo_manager) xs))
   \<and> json_records demo_world demo_manager = [''a'', ''b'', ''c'']
   \<and> printed_inputs (fst (pm_run demo_world demo_manager)) = [(0, ''a''), (1, ''b''), (2, ''c'')]
   \<and> printed_predictions (fst (pm_run demo_world demo_manager)) = [''a!.'', ''b!.'', ''c!.'']
   \<and> written_predictions (fst (pm_run demo_world demo_manager)) = [''a!.'', ''b!.'', ''c!.'']"
proof -
  have size: "1 \<le> m_batch_size demo_manager"
    by (simp add: demo_manager_def)
  have rj: "\<forall>x. (\<lambda>x r. r = x @ ''!'') x (predict_json (m_predictor demo_manager) x)"
    by (simp add: demo_manager_def demo_predictor_def)
  have rbj: "\<forall>xs. list_all2 (\<lambda>x r. r = x @ ''!'') xs
      (predict_batch_json (m_predictor demo_manager) xs)"
    by (simp add: demo_manager_def demo_predictor_def list_all2_function)
  have qi: "\<forall>x. (\<lambda>x r. r = x @ ''?'') x (predict_instance (m_predictor demo_manager) x)"
    by (simp add: demo_manager_def demo_predictor_def)
  have qbi: "\<forall>xs. list_all2 (\<lambda>x r. r = x @ ''?'') xs
      (predict_batch_instance (m_predictor demo_manager) xs)"
    by (simp add: demo_manager_def demo_predictor_def list_all2_function)
  have raw: "m_dataset_reader demo_manager = None"
    and console: "m_print_to_console demo_manager"
    and sink: "m_output_file demo_manager = Some ''out.txt''"
    and dump: "dump_line (m_predictor demo_manager) = (\<lambda>r. r @ ''.'')"
    by (simp_all add: demo_manager_def demo_predictor_def)
  have records: "json_records demo_world demo_manager = [''a'', ''b'', ''c'']"
    by (simp add: json_records_def pm_get_json_data_def demo_manager_def
          demo_world_def demo_predictor_def isspace_def is_whitespace_def)
  have shown: "shown_records demo_world demo_manager = [''a'', ''b'', ''c'']"
    by (simp add: shown_records_def raw records) (simp add: demo_world_def)
  have upt3: "[0..<3] = [0, 1, 2::nat]"
    by (simp add: upt_rec)
  from one_prediction_per_record [OF size rj rbj qi qbi, of demo_world]
  obtain rs where belong0: "(case m_dataset_reader demo_manager of
              None \<Rightarrow> list_all2 (\<lambda>x r. r = x @ ''!'') (json_records demo_world demo_manager) rs
            | Some r \<Rightarrow> list_all2 (\<lambda>x r. r = x @ ''?'') (instance_records demo_manager) rs)"
    and inputs0: "printed_inputs (fst (pm_run demo_world demo_manager)) =
             (if m_print_to_console demo_manager
              then zip [0..<length (shown_records demo_world demo_manager)]
                     (shown_records demo_world demo_manager) else [])"
    and printed0: "printed_predictions (fst (pm_run demo_world demo_manager)) =
             (if m_print_to_console demo_manager
              then map (dump_line (m_predictor demo_manager)) rs else [])"
    and written0: "written_predictions (fst (pm_run demo_world demo_manager)) =
             (case m_output_file demo_manager of
                None \<Rightarrow> [] | Some f \<Rightarrow> map (dump_line (m_predictor demo_manager)) rs)"
    by blast
  from belong0 have belong: "list_all2 (\<lambda>x r. r = x @ ''!'') [''a'', ''b'', ''c''] rs"
    by (simp add: raw records)
  from inputs0 have inputs: "printed_inputs (fst (pm_run demo_world demo_manager)) =
        [(0, ''a''), (1, ''b''), (2, ''c'')]"
    by (simp add: console shown upt3)
  from printed0 have printed: "printed_predictions (fst (pm_run demo_world demo_manager)) =
        map (\<lambda>r. r @ ''.'') rs"
    by (simp add: console dump)
  from written0 have written: "written_predictions (fst (pm_run demo_world demo_manager)) =
        map (\<lambda>r. r @ ''.'') rs"
    by (simp add: sink dump)
  from belong have rs: "rs = [''a!'', ''b!'', ''c!'']"
    by (simp add: list_all2_function)
  have rj': "\<forall>x. predict_json (m_predictor demo_manager) x = x @ ''!''"
    by (simp add: demo_manager_def demo_predictor_def)
  have qi': "\<forall>x. predict_instance (m_predictor demo_manager) x = x @ ''?''"
    by (simp add: demo_manager_def demo_predictor_def)
  have printed': "printed_predictions (fst (pm_run demo_world demo_manager)) =
      [''a!.'', ''b!.'', ''c!.'']"
    by (simp only: printed rs) simp
  have written': "written_predictions (fst (pm_run demo_world demo_manager)) =
      [''a!.'', ''b!.'', ''c!.'']"
    by (simp only: written rs) simp
  show ?thesis
    by (intro conjI) (fact size rj' rbj qi' qbi records inputs printed' written')+
qed

section \<open>Batch size 1 against a larger batch size\<close>

lemma predict_json_elementwise:
  "\<forall>xs. predict_batch_json (m_predictor m) xs = map (predict_json (m_predictor m)) xs \<Longrightarrow>
   b \<noteq> [] \<Longrightarrow>
   snd (pm_predict_json m b) =
     map (\<lambda>x. dump_line (m_predictor m) (predict_json (m_predictor m) x)) b"
  by (cases b) (auto simp: pm_predict_json_def)

lemma predict_instances_elementwise:
  "\<forall>xs. predict_batch_instance (m_predictor m) xs = map (predict_instance (m_predictor m)) xs \<Longrightarrow>
   b \<noteq> [] \<Longrightarrow>
   snd (pm_predict_instances m b) =
     map (\<lambda>x. dump_line (m_predictor m) (predict_instance (m_predictor m) x)) b"
  by (cases b) (auto simp: pm_predict_instances_def)

lemma concat_map_elementwise:
  "\<forall>b \<in> set bs. f b = map g b \<Longrightarrow> concat (map f bs) = map g (concat bs)"
  by (induction bs) auto

lemma batch_predictions_elementwise:
  fixes m :: "('j, 'i, 'r) manager"
  assumes size: "1 \<le> m_batch_size m"
    and ej: "\<forall>xs. predict_batch_json (m_predictor m) xs = map (predict_json (m_predictor m)) xs"
    and ei: "\<forall>xs. predict_batch_instance (m_predictor m) xs =
                  map (predict_instance (m_predictor m)) xs"
  shows "concat (batch_predictions w m) = single_predictions w m"
proof (cases "m_dataset_reader m")
  case None
  have "\<forall>b \<in> set (json_batches w m). snd (pm_predict_json m b) =
      map (\<lambda>x. dump_line (m_predictor m) (predict_json (m_predictor m) x)) b"
    using batches_nonempty[of "pm_get_json_data w m" "m_batch_size m"]
    by (auto simp: json_batches_def intro!: predict_json_elementwise[OF ej])
  then have "concat (map (\<lambda>b. snd (pm_predict_json m b)) (json_batches w m)) =
      map (\<lambda>x. dump_line (m_predictor m) (predict_json (m_predictor m) x))
        (concat (json_batches w m))"
    by (rule concat_map_elementwise)
  then show ?thesis
    using None json_batches_concat[OF size, of w]
    by (simp add: batch_predictions_def single_predictions_def)
next
  case (Some r)
  have "\<forall>b \<in> set (instance_batches m). snd (pm_predict_instances m b) =
      map (\<lambda>x. dump_line (m_predictor m) (predict_instance (m_predictor m) x)) b"
    using batches_nonempty[of "pm_get_instance_data m" "m_batch_size m"]
    by (auto simp: instance_batches_def intro!: predict_instances_elementwise[OF ei])
  then have "concat (map (\<lambda>b. snd (pm_predict_instances m b)) (instance_batches m)) =
      map (\<lambda>x. dump_line (m_predictor m) (predict_instance (m_predictor m) x))
        (concat (instance_batches m))"
    by (rule concat_map_elementwise)
  then show ?thesis
    using Some instance_batches_concat[OF size]
    by (simp add: batch_predictions_def single_predictions_def)
qed

lemma run_outputs_elementwise:
  fixes m :: "('j, 'i, 'r) manager"
  assumes size: "1 \<le> m_batch_size m"
    and ej: "\<forall>xs. predict_batch_json (m_predictor m) xs = map (predict_json (m_predictor m)) xs"
    and ei: "\<forall>xs. predict_batch_instance (m_predictor m) xs =
                  map (predict_instance (m_predictor m)) xs"
  shows "filter is_output (fst (pm_run w m)) =
           fst (emit_pairs m id 0 (zip (shown_records w m) (single_predictions w m)))"
proof -
  have lj: "\<forall>xs. length (predict_batch_json (m_predictor m) xs) = length xs"
    using ej by simp
  have li: "\<forall>xs. length (predict_batch_instance (m_predictor m) xs) = length xs"
    using ei by simp
  show ?thesis
    using run_outputs(3)[OF size lj li, of w] batch_predictions_elementwise[OF size ej ei, of w]
    by simp
qed

lemma emit_pairs_batch_size:
  "fst (emit_pairs (m\<lparr>m_batch_size := k\<rparr>) sh i ps) = fst (emit_pairs m sh i ps)"
  by (induction ps arbitrary: i)
     (auto simp: case_prod_beta Let_def pm_maybe_print_to_console_and_file_def)

lemma json_data_batch_size: "pm_get_json_data w (m\<lparr>m_batch_size := k\<rparr>) = pm_get_json_data w m"
  by (simp add: pm_get_json_data_def Let_def split: prod.splits)

lemma instance_data_batch_size:
  "pm_get_instance_data (m\<lparr>m_batch_size := k\<rparr>) = pm_get_instance_data m"
  by (simp add: pm_get_instance_data_def split: option.splits dataset_reader.splits)

lemma shown_records_batch_size: "shown_records w (m\<lparr>m_batch_size := k\<rparr>) = shown_records w m"
  by (simp add: shown_records_def json_records_def instance_records_def json_data_batch_size
        instance_data_batch_size split: option.splits)

lemma single_predictions_batch_size:
  "single_predictions w (m\<lparr>m_batch_size := k\<rparr>) = single_predictions w m"
  by (simp add: single_predictions_def json_records_def instance_records_def
        json_data_batch_size instance_data_batch_size split: option.splits)

lemma pm_run_outcome:
  "1 \<le> m_batch_size m \<Longrightarrow>
   snd (pm_run w m) =
     (case m_dataset_reader m of
        None \<Rightarrow> Inr ()
      | Some r \<Rightarrow> (case raised (pm_get_instance_data m) of None \<Rightarrow> Inr () | Some e \<Rightarrow> Inl e))"
  by (simp add: pm_run_def Let_def case_prod_beta for_batches_outcome raised_lazy_groups
        raised_json_data split: option.splits sum.splits)

text \<open>
  C3: when the batch operations of the predictor are the single-record operations applied
  to each record, a run with batch size 1 and a run with a batch size \<open>K > 1\<close> print and
  write the same inputs and prediction lines in the same order, and end in the same way.
\<close>

theorem batch_size_does_not_change_predictions:
  fixes m :: "('j, 'i, 'r) manager"
  assumes ej: "\<forall>xs. predict_batch_json (m_predictor m) xs = map (predict_json (m_predictor m)) xs"
    and ei: "\<forall>xs. predict_batch_instance (m_predictor m) xs =
                  map (predict_instance (m_predictor m)) xs"
    and K: "1 < K"
  shows "filter is_output (fst (pm_run w (m\<lparr>m_batch_size := 1\<rparr>))) =
           filter is_output (fst (pm_run w (m\<lparr>m_batch_size := K\<rparr>)))
         \<and> printed_predictions (fst (pm_run w (m\<lparr>m_batch_size := 1\<rparr>))) =
             printed_predictions (fst (pm_run w (m\<lparr>m_batch_size := K\<rparr>)))
         \<and> written_predictions (fst (pm_run w (m\<lparr>m_batch_size := 1\<rparr>))) =
             written_predictions (fst (pm_run w (m\<lparr>m_batch_size := K\<rparr>)))
         \<and> snd (pm_run w (m\<lparr>m_batch_size := 1\<rparr>)) = snd (pm_run w (m\<lparr>m_batch_size := K\<rparr>))"
proof -
  have one: "filter is_output (fst (pm_run w (m\<lparr>m_batch_size := 1\<rparr>))) =
      fst (emit_pairs m id 0 (zip (shown_records w m) (single_predictions w m)))"
    using run_outputs_elementwise[of "m\<lparr>m_batch_size := 1\<rparr>" w] ej ei
    by (simp add: emit_pairs_batch_size shown_records_batch_size single_predictions_batch_size)
  have many: "filter is_output (fst (pm_run w (m\<lparr>m_batch_size := K\<rparr>))) =
      fst (emit_pairs m id 0 (zip (shown_records w m) (single_predictions w m)))"
    using run_outputs_elementwise[of "m\<lparr>m_batch_size := K\<rparr>" w] ej ei K
    by (simp add: emit_pairs_batch_size shown_records_batch_size single_predictions_batch_size)
  have same: "filter is_output (fst (pm_run w (m\<lparr>m_batch_size := 1\<rparr>))) =
           filter is_output (fst (pm_run w (m\<lparr>m_batch_size := K\<rparr>)))"
    using one many by simp
  have printed: "printed_predictions (fst (pm_run w (m\<lparr>m_batch_size := 1\<rparr>))) =
             printed_predictions (fst (pm_run w (m\<lparr>m_batch_size := K\<rparr>)))"
    using arg_cong[OF same, of printed_predictions] by (simp add: printed_predictions_outputs)
  have written: "written_predictions (fst (pm_run w (m\<lparr>m_batch_size := 1\<rparr>))) =
             written_predictions (fst (pm_run w (m\<lparr>m_batch_size := K\<rparr>)))"
    using arg_cong[OF same, of written_predictions] by (simp add: written_predictions_outputs)
  have outcome: "snd (pm_run w (m\<lparr>m_batch_size := 1\<rparr>)) = snd (pm_run w (m\<lparr>m_batch_size := K\<rparr>))"
    using K pm_run_outcome[of "m\<lparr>m_batch_size := 1\<rparr>" w] pm_run_outcome[of "m\<lparr>m_batch_size := K\<rparr>" w]
    by (simp add: instance_data_batch_size split: option.splits)
  from same printed written outcome show ?thesis by simp
qed

theorem batch_size_does_not_change_predictions_witness:
  "(\<forall>xs. predict_batch_json (m_predictor demo_manager) xs =
          map (predict_json (m_predictor demo_manager)) xs)
   \<and> (\<forall>xs. predict_batch_instance (m_predictor demo_manager) xs =
          map (predict_instance (m_predictor demo_manager)) xs)
   \<and> (1 :: int) < 2
   \<and> written_predictions (fst (pm_run demo_world (demo_manager\<lparr>m_batch_size := 1\<rparr>))) =
       written_predictions (fst (pm_run demo_world (demo_manager\<lparr>m_batch_size := 2\<rparr>)))
   \<and> written_predictions (fst (pm_run demo_world (demo_manager\<lparr>m_batch_size := 2\<rparr>))) =
       [''a!.'', ''b!.'', ''c!.'']
   \<and> snd (pm_run demo_world (demo_manager\<lparr>m_batch_size := 1\<rparr>)) =
       snd (pm_run demo_world (demo_manager\<lparr>m_batch_size := 2\<rparr>))"
proof -
  have ej: "\<forall>xs. predict_batch_json (m_predictor demo_manager) xs =
          map (predict_json (m_predictor demo_manager)) xs"
    by (simp add: demo_manager_def demo_predictor_def)
  have ei: "\<forall>xs. predict_batch_instance (m_predictor demo_manager) xs =
          map (predict_instance (m_predictor demo_manager)) xs"
    by (simp add: demo_manager_def demo_predictor_def)
  have two: "pm_run demo_world (demo_manager\<lparr>m_batch_size := 2\<rparr>) =
     ([StdinLine ''a'', StdinLine '' '', StdinLine ''b'',
       PredictBatchJson [''a'', ''b''], PrintInput 0 ''a'',
       PrintPrediction ''a!.'', WriteOutput ''out.txt'' ''a!.'',
       PrintInput 1 ''b'', PrintPrediction ''b!.'',
       WriteOutput ''out.txt'' ''b!.'', StdinLine ''c'', PredictJson ''c'',
       PrintInput 2 ''c'', PrintPrediction ''c!.'',
       WriteOutput ''out.txt'' ''c!.'', CloseOutput ''out.txt''],
      Inr ())"
    by (simp add: pm_run_def lazy_groups_of_def pm_get_json_data_def demo_manager_def
          demo_world_def demo_predictor_def isspace_def is_whitespace_def json_batch_def
          pm_predict_json_def pm_maybe_print_to_console_and_file_def)
  from batch_size_does_not_change_predictions [OF ej ei, of 2 demo_world] ej ei
  show ?thesis by (simp add: two)
qed

section \<open>The operation used for a batch\<close>

lemma printed_predictions_append:
  "printed_predictions (es @ fs) = printed_predictions es @ printed_predictions fs"
proof (induction es)
  case Nil
  then show ?case by simp
next
  case (Cons e es)
  then show ?case by (cases e) simp_all
qed

lemma written_predictions_append:
  "written_predictions (es @ fs) = written_predictions es @ written_predictions fs"
proof (induction es)
  case Nil
  then show ?case by simp
next
  case (Cons e es)
  then show ?case by (cases e) simp_all
qed

lemma printed_predictions_pairs:
  "printed_predictions (fst (emit_pairs m sh i qs)) =
     (if m_print_to_console m then map snd qs else [])"
  by (induction qs arbitrary: i)
     (auto simp: case_prod_beta Let_def pm_maybe_print_to_console_and_file_def
           split: option.splits)

lemma written_predictions_pairs:
  "written_predictions (fst (emit_pairs m sh i qs)) =
     (case m_output_file m of None \<Rightarrow> [] | Some f \<Rightarrow> map snd qs)"
  by (induction qs arbitrary: i)
     (auto simp: case_prod_beta Let_def pm_maybe_print_to_console_and_file_def
           split: option.splits)

lemma map_snd_zip_take: "map snd (zip xs ys) = take (length xs) ys"
  by (induction xs arbitrary: ys) (auto simp: zip_Cons1 split: list.splits)

lemma printed_predictions_bodies:
  assumes "\<forall>b. printed_predictions (fst (predict b)) = []"
  shows "printed_predictions (fst (bodies (zip_loop m predict sh) i bs)) =
           (if m_print_to_console m
            then concat (map (\<lambda>b. take (length b) (snd (predict b))) bs) else [])"
  using assms
  by (induction bs arbitrary: i)
     (auto simp: case_prod_beta Let_def zip_loop_def printed_predictions_append
        printed_predictions_pairs map_snd_zip_take)

lemma written_predictions_bodies:
  assumes "\<forall>b. written_predictions (fst (predict b)) = []"
  shows "written_predictions (fst (bodies (zip_loop m predict sh) i bs)) =
           (case m_output_file m of
              None \<Rightarrow> []
            | Some f \<Rightarrow> concat (map (\<lambda>b. take (length b) (snd (predict b))) bs))"
  using assms
  by (induction bs arbitrary: i)
     (auto simp: case_prod_beta Let_def zip_loop_def written_predictions_append
        written_predictions_pairs map_snd_zip_take split: option.splits)

lemma predict_json_lines:
  "b \<noteq> [] \<Longrightarrow> take (length b) (snd (pm_predict_json m b)) = spec_json_lines (m_predictor m) b"
  by (cases b) (auto simp: pm_predict_json_def spec_json_lines_def split: list.splits)

lemma predict_instances_lines:
  "b \<noteq> [] \<Longrightarrow>
   take (length b) (snd (pm_predict_instances m b)) = spec_instance_lines (m_predictor m) b"
  by (cases b) (auto simp: pm_predict_instances_def spec_instance_lines_def split: list.splits)

lemma concat_map_cong_nonempty:
  "\<forall>b \<in> set bs. f b = g b \<Longrightarrow> concat (map f bs) = concat (map g bs)"
  by (induction bs) auto

lemma output_bodies_json_run:
  fixes m :: "('j, 'i, 'r) manager"
  assumes json: "m_dataset_reader m = None"
  shows "filter is_output (fst (pm_run w m)) =
           filter is_output (fst (bodies (json_batch w m) 0 (json_batches w m)))"
proof -
  let ?G = "lazy_groups_of (pm_get_json_data w m) (m_batch_size m)"
  have "filter is_output (fst (pm_run w m)) =
          filter is_output (fst (for_batches (json_batch w m) 0 ?G))"
    using json by (simp add: filter_pm_run)
  also have "\<dots> = filter is_output (fst (bodies (json_batch w m) 0 (yields ?G)))"
    using quiet_effects_json[of w m] by (intro for_batches_filter) blast
  finally show ?thesis by (simp add: json_batches_def)
qed

lemma output_bodies_instance_run:
  fixes m :: "('j, 'i, 'r) manager"
  assumes reader: "m_dataset_reader m \<noteq> None"
  shows "filter is_output (fst (pm_run w m)) =
           filter is_output (fst (bodies (instance_batch w m) 0 (instance_batches m)))"
proof -
  let ?G = "lazy_groups_of (pm_get_instance_data m) (m_batch_size m)"
  have "filter is_output (fst (pm_run w m)) =
          filter is_output (fst (for_batches (instance_batch w m) 0 ?G))"
    using reader by (simp add: filter_pm_run)
  also have "\<dots> = filter is_output (fst (bodies (instance_batch w m) 0 (yields ?G)))"
    using quiet_effects_instance[of m] by (intro for_batches_filter) blast
  finally show ?thesis by (simp add: instance_batches_def)
qed

lemma json_lines_run:
  fixes m :: "('j, 'i, 'r) manager"
  assumes json: "m_dataset_reader m = None"
  shows "printed_predictions (fst (pm_run w m)) =
           (if m_print_to_console m
            then concat (map (spec_json_lines (m_predictor m)) (json_batches w m)) else [])"
    and "written_predictions (fst (pm_run w m)) =
           (case m_output_file m of
              None \<Rightarrow> []
            | Some f \<Rightarrow> concat (map (spec_json_lines (m_predictor m)) (json_batches w m)))"
proof -
  have ne: "\<forall>b \<in> set (json_batches w m). b \<noteq> []"
    using batches_nonempty[of "pm_get_json_data w m" "m_batch_size m"]
    by (auto simp: json_batches_def)
  have lines: "concat (map (\<lambda>b. take (length b) (snd (pm_predict_json m b))) (json_batches w m)) =
      concat (map (spec_json_lines (m_predictor m)) (json_batches w m))"
    by (rule concat_map_cong_nonempty) (simp add: ne predict_json_lines)
  have "printed_predictions (fst (pm_run w m)) =
      printed_predictions (filter is_output (fst (pm_run w m)))"
    by (simp add: printed_predictions_outputs)
  also have "\<dots> = printed_predictions (fst (bodies (json_batch w m) 0 (json_batches w m)))"
    by (simp add: output_bodies_json_run[OF json] printed_predictions_outputs)
  also have "\<dots> = (if m_print_to_console m
      then concat (map (\<lambda>b. take (length b) (snd (pm_predict_json m b))) (json_batches w m))
      else [])"
    unfolding json_batch_zip_loop
    by (rule printed_predictions_bodies) (simp add: pm_predict_json_def)
  finally show "printed_predictions (fst (pm_run w m)) =
           (if m_print_to_console m
            then concat (map (spec_json_lines (m_predictor m)) (json_batches w m)) else [])"
    by (simp add: lines)
  have "written_predictions (fst (pm_run w m)) =
      written_predictions (filter is_output (fst (pm_run w m)))"
    by (simp add: written_predictions_outputs)
  also have "\<dots> = written_predictions (fst (bodies (json_batch w m) 0 (json_batches w m)))"
    by (simp add: output_bodies_json_run[OF json] written_predictions_outputs)
  also have "\<dots> = (case m_output_file m of
      None \<Rightarrow> []
    | Some f \<Rightarrow>
        concat (map (\<lambda>b. take (length b) (snd (pm_predict_json m b))) (json_batches w m)))"
    unfolding json_batch_zip_loop
    by (rule written_predictions_bodies) (simp add: pm_predict_json_def)
  finally show "written_predictions (fst (pm_run w m)) =
           (case m_output_file m of
              None \<Rightarrow> []
            | Some f \<Rightarrow> concat (map (spec_json_lines (m_predictor m)) (json_batches w m)))"
    by (simp add: lines split: option.splits)
qed

lemma instance_lines_run:
  fixes m :: "('j, 'i, 'r) manager"
  assumes reader: "m_dataset_reader m \<noteq> None"
  shows "printed_predictions (fst (pm_run w m)) =
           (if m_print_to_console m
            then concat (map (spec_instance_lines (m_predictor m)) (instance_batches m)) else [])"
    and "written_predictions (fst (pm_run w m)) =
           (case m_output_file m of
              None \<Rightarrow> []
            | Some f \<Rightarrow> concat (map (spec_instance_lines (m_predictor m)) (instance_batches m)))"
proof -
  have ne: "\<forall>b \<in> set (instance_batches m). b \<noteq> []"
    using batches_nonempty[of "pm_get_instance_data m" "m_batch_size m"]
    by (auto simp: instance_batches_def)
  have lines:
    "concat (map (\<lambda>b. take (length b) (snd (pm_predict_instances m b))) (instance_batches m)) =
      concat (map (spec_instance_lines (m_predictor m)) (instance_batches m))"
    by (rule concat_map_cong_nonempty) (simp add: ne predict_instances_lines)
  have "printed_predictions (fst (pm_run w m)) =
      printed_predictions (filter is_output (fst (pm_run w m)))"
    by (simp add: printed_predictions_outputs)
  also have "\<dots> = printed_predictions (fst (bodies (instance_batch w m) 0 (instance_batches m)))"
    by (simp add: output_bodies_instance_run[OF reader] printed_predictions_outputs)
  also have "\<dots> = (if m_print_to_console m
      then concat (map (\<lambda>b. take (length b) (snd (pm_predict_instances m b))) (instance_batches m))
      else [])"
    unfolding instance_batch_zip_loop
    by (rule printed_predictions_bodies) (simp add: pm_predict_instances_def)
  finally show "printed_predictions (fst (pm_run w m)) =
           (if m_print_to_console m
            then concat (map (spec_instance_lines (m_predictor m)) (instance_batches m)) else [])"
    by (simp add: lines)
  have "written_predictions (fst (pm_run w m)) =
      written_predictions (filter is_output (fst (pm_run w m)))"
    by (simp add: written_predictions_outputs)
  also have "\<dots> = written_predictions (fst (bodies (instance_batch w m) 0 (instance_batches m)))"
    by (simp add: output_bodies_instance_run[OF reader] written_predictions_outputs)
  also have "\<dots> = (case m_output_file m of
      None \<Rightarrow> []
    | Some f \<Rightarrow>
        concat (map (\<lambda>b. take (length b) (snd (pm_predict_instances m b))) (instance_batches m)))"
    unfolding instance_batch_zip_loop
    by (rule written_predictions_bodies) (simp add: pm_predict_instances_def)
  finally show "written_predictions (fst (pm_run w m)) =
           (case m_output_file m of
              None \<Rightarrow> []
            | Some f \<Rightarrow> concat (map (spec_instance_lines (m_predictor m)) (instance_batches m)))"
    by (simp add: lines split: option.splits)
qed

text \<open>
  C5: in raw-JSON mode and in reader mode, the calls a run makes to the predictor are,
  batch by batch, \<^verbatim>\<open>predict_json\<close> or \<^verbatim>\<open>predict_instance\<close> for a batch of exactly one
  record and \<^verbatim>\<open>predict_batch_json\<close> or \<^verbatim>\<open>predict_batch_instance\<close> for a larger one, and
  the prediction lines the run prints and writes are the dumped results of that same
  operation for each batch; no batch is empty.
\<close>

theorem batch_of_one_uses_single_operation:
  "filter is_call (fst (pm_run w m)) =
     (case m_dataset_reader m of
        None \<Rightarrow> map spec_json_call (json_batches w m)
      | Some r \<Rightarrow> map spec_instance_call (instance_batches m))
   \<and> [] \<notin> set (json_batches w m) \<and> [] \<notin> set (instance_batches m)
   \<and> printed_predictions (fst (pm_run w m)) =
       (if m_print_to_console m then spec_lines w m else [])
   \<and> written_predictions (fst (pm_run w m)) =
       (case m_output_file m of None \<Rightarrow> [] | Some f \<Rightarrow> spec_lines w m)"
proof (cases "m_dataset_reader m")
  case None
  have lines: "concat (map (spec_json_lines (m_predictor m)) (json_batches w m)) = spec_lines w m"
    by (simp add: spec_lines_def None)
  have "filter is_call (fst (pm_run w m)) = map spec_json_call (json_batches w m)"
    using None by (rule calls_json_run)
  moreover have "printed_predictions (fst (pm_run w m)) =
       (if m_print_to_console m then spec_lines w m else [])"
    using json_lines_run(1)[OF None, of w] by (simp only: lines)
  moreover have "written_predictions (fst (pm_run w m)) =
       (case m_output_file m of None \<Rightarrow> [] | Some f \<Rightarrow> spec_lines w m)"
    using json_lines_run(2)[OF None, of w] by (simp only: lines)
  ultimately show ?thesis
    using None by (simp add: json_batches_def instance_batches_def batches_nonempty)
next
  case (Some r)
  then have reader: "m_dataset_reader m \<noteq> None" by simp
  have lines:
    "concat (map (spec_instance_lines (m_predictor m)) (instance_batches m)) = spec_lines w m"
    by (simp add: spec_lines_def Some)
  have "filter is_call (fst (pm_run w m)) = map spec_instance_call (instance_batches m)"
    using reader by (rule calls_instance_run)
  moreover have "printed_predictions (fst (pm_run w m)) =
       (if m_print_to_console m then spec_lines w m else [])"
    using instance_lines_run(1)[OF reader, of w] by (simp only: lines)
  moreover have "written_predictions (fst (pm_run w m)) =
       (case m_output_file m of None \<Rightarrow> [] | Some f \<Rightarrow> spec_lines w m)"
    using instance_lines_run(2)[OF reader, of w] by (simp only: lines)
  ultimately show ?thesis
    using Some by (simp add: json_batches_def instance_batches_def batches_nonempty)
qed

theorem batch_of_one_uses_single_operation_witness:
  "filter is_call (fst (pm_run demo_world (demo_manager\<lparr>m_predictor := marked_predictor\<rparr>))) =
     [PredictBatchJson [''a'', ''b''], PredictJson ''c'']
   \<and> printed_predictions (fst (pm_run demo_world (demo_manager\<lparr>m_predictor := marked_predictor\<rparr>))) =
       [''aN.'', ''bN.'', ''c1.'']
   \<and> written_predictions (fst (pm_run demo_world (demo_manager\<lparr>m_predictor := marked_predictor\<rparr>))) =
       [''aN.'', ''bN.'', ''c1.'']"
proof -
  let ?m = "demo_manager\<lparr>m_predictor := marked_predictor\<rparr>"
  have batches: "json_batches demo_world ?m = [[''a'', ''b''], [''c'']]"
    by (simp add: json_batches_def lazy_groups_of_def pm_get_json_data_def demo_manager_def
          demo_world_def marked_predictor_def isspace_def is_whitespace_def)
  have raw: "m_dataset_reader demo_manager = None"
    and console: "m_print_to_console demo_manager"
    and sink: "m_output_file demo_manager = Some ''out.txt''"
    by (simp_all add: demo_manager_def)
  have "spec_lines demo_world ?m =
      concat (map (spec_json_lines marked_predictor) [[''a'', ''b''], [''c'']])"
    by (simp add: spec_lines_def raw batches)
  also have "\<dots> = [''aN.'', ''bN.'', ''c1.'']"
    by (simp add: spec_json_lines_def marked_predictor_def)
  finally have lines: "spec_lines demo_world ?m = [''aN.'', ''bN.'', ''c1.'']" .
  have calls: "map spec_json_call (json_batches demo_world ?m) =
      [PredictBatchJson [''a'', ''b''], PredictJson ''c'' :: (string, string) event]"
    by (simp add: batches spec_json_call_def)
  from batch_of_one_uses_single_operation [of demo_world ?m]
  show ?thesis by (simp add: raw console sink lines calls)
qed

end
